theory Spec2Isabelle
  imports Complex_Main "HOL-Library.Log_Nat"
begin

section \<open>JavaScript strings\<close>

text \<open>
  A string of the language is a sequence of UTF-16 code units, and a code unit is a
  natural number below 65536. \<open>js\<close> gives the code units of a literal of ASCII
  characters. Text that the code only stores, compares as a whole or passes on, such as
  messages, descriptions and the pairs of a query string, is a string of the logic.
\<close>

type_synonym js_string = "nat list"

definition js :: "string \<Rightarrow> js_string" where
  "js s = map of_char s"

text \<open>
  The code units that \<^verbatim>\<open>trim\<close> removes are the white space and the line terminators
  of the language: TAB, LF, VT, FF, CR, SPACE, NO-BREAK SPACE, OGHAM SPACE MARK, the
  spaces U+2000 to U+200A, LINE SEPARATOR, PARAGRAPH SEPARATOR, NARROW NO-BREAK SPACE,
  MEDIUM MATHEMATICAL SPACE, IDEOGRAPHIC SPACE and the byte order mark U+FEFF.
\<close>

definition isWhiteSpace :: "nat \<Rightarrow> bool" where
  "isWhiteSpace c =
     ((0x9 \<le> c \<and> c \<le> 0xD) \<or> c = 0x20 \<or> c = 0xA0 \<or> c = 0x1680 \<or>
      (0x2000 \<le> c \<and> c \<le> 0x200A) \<or> c = 0x2028 \<or> c = 0x2029 \<or> c = 0x202F \<or>
      c = 0x205F \<or> c = 0x3000 \<or> c = 0xFEFF)"

definition trim :: "js_string \<Rightarrow> js_string" where
  "trim s = rev (dropWhile isWhiteSpace (rev (dropWhile isWhiteSpace s)))"

text \<open>
  \<^verbatim>\<open>s.split(sep)\<close> for a separator of one code unit: the pieces between the
  occurrences of the separator, empty pieces included; the empty string gives one
  empty piece.
\<close>

fun splitOn :: "nat \<Rightarrow> js_string \<Rightarrow> js_string list" where
  "splitOn sep [] = [[]]"
| "splitOn sep (c # cs) =
     (if c = sep then [] # splitOn sep cs
      else (case splitOn sep cs of
              [] \<Rightarrow> [[c]]
            | w # ws \<Rightarrow> (c # w) # ws))"

text \<open>\<^verbatim>\<open>pieces.join(sep)\<close> for a separator of one code unit.\<close>

fun joinWith :: "nat \<Rightarrow> js_string list \<Rightarrow> js_string" where
  "joinWith sep [] = []"
| "joinWith sep [w] = w"
| "joinWith sep (w # v # ws) = w @ sep # joinWith sep (v # ws)"

text \<open>
  \<^verbatim>\<open>s.startsWith(q)\<close> and \<^verbatim>\<open>s.includes(q)\<close> compare code units; the search tries
  every position of \<open>s\<close>.
\<close>

fun startsWith :: "js_string \<Rightarrow> js_string \<Rightarrow> bool" where
  "startsWith s [] = True"
| "startsWith [] (q # qs) = False"
| "startsWith (c # cs) (q # qs) = (c = q \<and> startsWith cs qs)"

fun includes_str :: "js_string \<Rightarrow> js_string \<Rightarrow> bool" where
  "includes_str [] q = (q = [])"
| "includes_str (c # cs) q = (startsWith (c # cs) q \<or> includes_str cs q)"

text \<open>
  Case conversion. On a string of ASCII code units \<^verbatim>\<open>toUpperCase\<close> maps the letters
  a to z to A to Z and \<^verbatim>\<open>toLowerCase\<close> maps A to Z to a to z, and both leave every
  other code unit alone. On a string that has a code unit outside ASCII the conversion
  follows the case tables of Unicode, which are not part of the program: there the
  conversion of the language is a parameter, \<open>unicodeUpper\<close> or \<open>unicodeLower\<close>, and
  what is proved holds for every function in its place.
\<close>

definition isAscii :: "js_string \<Rightarrow> bool" where
  "isAscii s = list_all (\<lambda>c. c < 0x80) s"

definition upperUnit :: "nat \<Rightarrow> nat" where
  "upperUnit c = (if 0x61 \<le> c \<and> c \<le> 0x7A then c - 0x20 else c)"

definition lowerUnit :: "nat \<Rightarrow> nat" where
  "lowerUnit c = (if 0x41 \<le> c \<and> c \<le> 0x5A then c + 0x20 else c)"

definition toUpperCase :: "(js_string \<Rightarrow> js_string) \<Rightarrow> js_string \<Rightarrow> js_string" where
  "toUpperCase unicodeUpper s = (if isAscii s then map upperUnit s else unicodeUpper s)"

definition toLowerCase :: "(js_string \<Rightarrow> js_string) \<Rightarrow> js_string \<Rightarrow> js_string" where
  "toLowerCase unicodeLower s = (if isAscii s then map lowerUnit s else unicodeLower s)"

text \<open>The exceptions of the language that the modelled code can raise.\<close>

datatype js_error = TypeError

section \<open>JavaScript numbers\<close>

text \<open>
  A number of the language is a binary64 value. The values that occur here are not
  negative and lie in the normal range, so a number is a rational and an operation gives
  the exact result rounded to 53 significant bits, ties to even: \<open>binade x\<close> is the
  exponent \<open>e\<close> for which \<open>x\<close> is at least \<open>2 powi e\<close> and less than
  \<open>2 powi (e + 1)\<close>, and \<open>fl64 x\<close> is the multiple of \<open>2 powi (e - 52)\<close> nearest to
  \<open>x\<close>. \<^verbatim>\<open>Math.round\<close> gives the nearest integer, the upper one of two that are
  equally near. A result can also be NaN.
\<close>

definition binade :: "rat \<Rightarrow> int" where
  "binade x =
     (let (p, q) = quotient_of x; e = bitlen p - bitlen q
      in if 2 powi e \<le> x then e else e - 1)"

definition roundTiesToEven :: "rat \<Rightarrow> int" where
  "roundTiesToEven m =
     (let f = \<lfloor>m\<rfloor>; r = m - of_int f
      in if r < 1 / 2 then f else if 1 / 2 < r then f + 1 else if even f then f else f + 1)"

definition fl64 :: "rat \<Rightarrow> rat" where
  "fl64 x =
     (if x = 0 then 0
      else of_int (roundTiesToEven (x / 2 powi (binade x - 52))) * 2 powi (binade x - 52))"

definition Math_round :: "rat \<Rightarrow> int" where
  "Math_round x = \<lfloor>x + 1 / 2\<rfloor>"

datatype js_number = Num int | NaN

section \<open>Entities\<close>

text \<open>
  Modelled from the spec: the entity declarations \<^verbatim>\<open>entities/Task\<close> and
  \<^verbatim>\<open>entities/Project\<close> are imported by the components but are not among the
  sources. The spec gives a Task an optional server-assigned id, a name and a status out
  of \<^verbatim>\<open>not_started | in_progress | done\<close>, and a Project an optional server-assigned
  id, a name, an optional description, an optional area key, the flags active and
  pin_to_sidebar, and an optional embedded collection of tasks. A field \<open>f\<close> of Task is
  \<open>f_T\<close> here and a field \<open>f\<close> of Project is \<open>f_P\<close>. After an edit in the form the
  area key holds the string value of the select element, so it is a number, a string or
  null.
\<close>

datatype task_status = Not_started | In_progress | Done

record Task =
  id_T :: "nat option"
  name_T :: js_string
  status_T :: task_status

datatype area_key = AreaNull | AreaNumber nat | AreaString string

record Project =
  id_P :: "nat option"
  name_P :: js_string
  description_P :: "string option"
  area_id_P :: area_key
  active_P :: bool
  pin_to_sidebar_P :: bool
  tasks_P :: "Task list option"

text \<open>
  The form data of a project that does not exist yet, as the project dialog initialises
  it: no id, empty name and description, no area, active, not pinned.
\<close>

definition emptyFormData :: Project where
  "emptyFormData =
     \<lparr>id_P = None, name_P = [], description_P = Some [], area_id_P = AreaNull,
      active_P = True, pin_to_sidebar_P = False, tasks_P = None\<rparr>"

section \<open>Projects.tsx: the projects grid\<close>

subsection \<open>getProjectInitials\<close>

text \<open>
  \<^verbatim>\<open>word[0].toUpperCase()\<close>: \<^verbatim>\<open>word[0]\<close> is the first code unit of the word, and
  \<^verbatim>\<open>undefined\<close> for an empty word, on which the call raises a TypeError.
\<close>

fun firstUpper :: "(js_string \<Rightarrow> js_string) \<Rightarrow> js_string \<Rightarrow> js_error + js_string" where
  "firstUpper unicodeUpper [] = Inl TypeError"
| "firstUpper unicodeUpper (c # cs) = Inr (toUpperCase unicodeUpper [c])"

text \<open>\<^verbatim>\<open>words.map(f)\<close> for an \<open>f\<close> that may raise: the first exception ends the loop.\<close>

fun mapE :: "('a \<Rightarrow> js_error + 'b) \<Rightarrow> 'a list \<Rightarrow> js_error + 'b list" where
  "mapE f [] = Inr []"
| "mapE f (x # xs) =
     (case f x of
        Inl e \<Rightarrow> Inl e
      | Inr y \<Rightarrow> (case mapE f xs of Inl e \<Rightarrow> Inl e | Inr ys \<Rightarrow> Inr (y # ys)))"

definition nameWords :: "js_string \<Rightarrow> js_string list" where
  "nameWords name = filter (\<lambda>word. length word > 0) (splitOn 0x20 (trim name))"

definition getProjectInitials ::
  "(js_string \<Rightarrow> js_string) \<Rightarrow> js_string \<Rightarrow> js_error + js_string" where
  "getProjectInitials unicodeUpper name =
     (let words = nameWords name in
      if length words = 1 then Inr (toUpperCase unicodeUpper name)
      else (case mapE (firstUpper unicodeUpper) words of
              Inl e \<Rightarrow> Inl e
            | Inr initials \<Rightarrow> Inr (concat initials)))"

subsection \<open>filteredProjects\<close>

definition filteredProjects ::
  "(js_string \<Rightarrow> js_string) \<Rightarrow> Project list \<Rightarrow> js_string \<Rightarrow> Project list" where
  "filteredProjects unicodeLower projects searchQuery =
     filter
       (\<lambda>project.
          includes_str (toLowerCase unicodeLower (name_P project))
            (toLowerCase unicodeLower searchQuery))
       projects"

subsection \<open>getCompletionPercentage\<close>

text \<open>
  \<^verbatim>\<open>taskStatusCounts\<close> is a \<^verbatim>\<open>Record<number, any>\<close>: a partial map from project ids
  to objects in which each of the counts \<^verbatim>\<open>done\<close>, \<^verbatim>\<open>not_started\<close> and
  \<^verbatim>\<open>in_progress\<close> is absent or a number of tasks, a natural number below
  \<open>2 ^ 53\<close>, which a number of the language holds exactly. The fields carry the suffix \<open>_count\<close> here.
  The two additions, the division and the multiplication are operations on numbers of
  the language, each rounded by \<open>fl64\<close>.
\<close>

record task_status_counts =
  done_count :: "nat option"
  not_started_count :: "nat option"
  in_progress_count :: "nat option"

text \<open>\<^verbatim>\<open>!projectId\<close> on a \<^verbatim>\<open>number | undefined\<close>: true of \<^verbatim>\<open>undefined\<close> and of 0.\<close>

fun falsyId :: "nat option \<Rightarrow> bool" where
  "falsyId None = True"
| "falsyId (Some i) = (i = 0)"

text \<open>\<^verbatim>\<open>count || 0\<close>.\<close>

fun orZero :: "nat option \<Rightarrow> nat" where
  "orZero None = 0"
| "orZero (Some n) = n"

definition emptyCounts :: task_status_counts where
  "emptyCounts = \<lparr>done_count = None, not_started_count = None, in_progress_count = None\<rparr>"

definition getCompletionPercentage ::
  "(nat \<rightharpoonup> task_status_counts) \<Rightarrow> nat option \<Rightarrow> js_number" where
  "getCompletionPercentage taskStatusCounts projectId =
     (if falsyId projectId then Num 0
      else
        (let taskStatus =
               (case taskStatusCounts (the projectId) of
                  None \<Rightarrow> emptyCounts
                | Some counts \<Rightarrow> counts);
             totalTasks =
               fl64
                 (fl64
                    (of_nat (orZero (done_count taskStatus)) +
                     of_nat (orZero (not_started_count taskStatus))) +
                  of_nat (orZero (in_progress_count taskStatus)))
         in if totalTasks = 0 then Num 0
            else (case done_count taskStatus of
                    None \<Rightarrow> NaN
                  | Some d \<Rightarrow> Num (Math_round (fl64 (fl64 (of_nat d / totalTasks) * 100))))))"

text \<open>
  The completion percentage in the words of the spec: done tasks divided by total tasks,
  as a percentage rounded to the nearest integer, and 0 for a project without tasks.
\<close>

definition completion_spec :: "nat \<Rightarrow> nat \<Rightarrow> nat \<Rightarrow> int" where
  "completion_spec d n i =
     (if d + n + i = 0 then 0 else round (of_nat d / of_nat (d + n + i) * 100 :: rat))"

subsection \<open>handleSaveProject\<close>

text \<open>
  \<^verbatim>\<open>updateProject\<close>, \<^verbatim>\<open>createProject\<close> and \<^verbatim>\<open>mutate\<close> come from the data context and
  the fetch hook, which are not among the sources: they are calls recorded in the trace of
  the handler, and the promise that a backend call returns is a parameter of the model.
  A rejected promise makes \<^verbatim>\<open>await\<close> raise, and the handler has no \<^verbatim>\<open>try\<close>.
\<close>

datatype outcome = Resolved | Rejected

datatype projects_effect =
    UpdateProject nat Project
  | CreateProject Project
  | SetIsProjectModalOpen bool
  | Mutate

fun isBackendCall :: "projects_effect \<Rightarrow> bool" where
  "isBackendCall (UpdateProject i project) = True"
| "isBackendCall (CreateProject project) = True"
| "isBackendCall (SetIsProjectModalOpen b) = False"
| "isBackendCall Mutate = False"

definition saveCall :: "Project \<Rightarrow> projects_effect" where
  "saveCall project =
     (if \<not> falsyId (id_P project) then UpdateProject (the (id_P project)) project
      else CreateProject project)"

definition handleSaveProject ::
  "(projects_effect \<Rightarrow> outcome) \<Rightarrow> Project \<Rightarrow> projects_effect list \<times> outcome" where
  "handleSaveProject backend project =
     (case backend (saveCall project) of
        Rejected \<Rightarrow> ([saveCall project], Rejected)
      | Resolved \<Rightarrow> ([saveCall project, SetIsProjectModalOpen False, Mutate], Resolved))"

subsection \<open>The filters and the query string\<close>

text \<open>
  A \<^verbatim>\<open>URLSearchParams\<close> is a list of name-value pairs, in order, in which a name may
  occur more than once. \<^verbatim>\<open>get\<close> reads the first value of a name, \<^verbatim>\<open>getAll\<close> all of
  them, \<^verbatim>\<open>delete\<close> removes every pair of a name, and \<^verbatim>\<open>set\<close> overwrites the first
  pair of a name and removes its other pairs, or appends a pair when there is none.
\<close>

type_synonym url_search_params = "(string \<times> string) list"

definition get_param :: "string \<Rightarrow> url_search_params \<Rightarrow> string option" where
  "get_param k params = map_of params k"

definition getAll_param :: "string \<Rightarrow> url_search_params \<Rightarrow> string list" where
  "getAll_param k params = map snd (filter (\<lambda>kv. fst kv = k) params)"

definition delete_param :: "string \<Rightarrow> url_search_params \<Rightarrow> url_search_params" where
  "delete_param k params = filter (\<lambda>kv. fst kv \<noteq> k) params"

fun set_param :: "string \<Rightarrow> string \<Rightarrow> url_search_params \<Rightarrow> url_search_params" where
  "set_param k v [] = [(k, v)]"
| "set_param k v (kv # params) =
     (if fst kv = k then (k, v) # delete_param k params else kv # set_param k v params)"

definition handleActiveFilterChange :: "url_search_params \<Rightarrow> string \<Rightarrow> url_search_params" where
  "handleActiveFilterChange searchParams newActiveFilter =
     (let params = searchParams in
      if newActiveFilter = ''all'' then delete_param ''active'' params
      else set_param ''active'' newActiveFilter params)"

definition handleAreaFilterChange :: "url_search_params \<Rightarrow> string \<Rightarrow> url_search_params" where
  "handleAreaFilterChange searchParams newAreaFilter =
     (let params = searchParams in
      if newAreaFilter = [] then delete_param ''area_id'' params
      else set_param ''area_id'' newAreaFilter params)"

text \<open>The pairs of the names other than \<open>k\<close>, in order.\<close>

definition other_params :: "string \<Rightarrow> url_search_params \<Rightarrow> url_search_params" where
  "other_params k params = filter (\<lambda>kv. fst kv \<noteq> k) params"

section \<open>Calls on the environment\<close>

text \<open>
  A request carries the URL, the method (\<open>http_method\<close>) and the object that is
  serialised into the body, if it has one. The object is a partial map from property
  names to values; a task passed to
  \<^verbatim>\<open>handleTaskCreate\<close> holds strings, numbers and the project it belongs to.
\<close>

datatype field_value = Str js_string | Number nat | Proj Project

type_synonym task_data = "string \<rightharpoonup> field_value"

record request =
  url :: string
  http_method :: string
  body :: "task_data option"

text \<open>
  A property of a parsed value, as far as the code looks at it: it is absent, or a
  string, or a value of another type, which is given by its truthiness and by the string
  that the language converts it to.
\<close>

datatype property = Absent | StringValue string | OtherValue bool string

text \<open>
  What reading a property of the parsed value gives. The value \<^verbatim>\<open>null\<close> has no
  properties: reading one raises a TypeError, whose message depends on the name of the
  property and is worded by the engine. Every other value gives its \<^verbatim>\<open>error\<close>
  property.
\<close>

datatype property_read = Raises "string \<Rightarrow> string" | Gives property

text \<open>
  What \<^verbatim>\<open>await response.json()\<close> gives: a SyntaxError with its message when the body
  is not JSON, and otherwise the parsed value, seen through what reading its
  properties gives and as the entity that the caller takes it for. What
  \<^verbatim>\<open>await fetch(...)\<close> gives: an exception with its message when the network fails, and
  otherwise a response with its \<^verbatim>\<open>ok\<close> flag and its body.
\<close>

datatype 'a json_body = NotJson string | Json property_read 'a

datatype 'a fetch_result = NetworkError string | Response bool "'a json_body"

text \<open>
  \<^verbatim>\<open>new Error(data.error || fallback).message\<close>: an absent property and a falsy value,
  the empty string among them, give the fallback; a truthy value gives its conversion to
  a string.
\<close>

fun orElse :: "property \<Rightarrow> string \<Rightarrow> string" where
  "orElse Absent fallback = fallback"
| "orElse (StringValue s) fallback = (if s = [] then fallback else s)"
| "orElse (OtherValue truthy s) fallback = (if truthy then s else fallback)"

text \<open>
  The calls that the handlers of the detail view, of the new-task field and of the
  project dialog make on their environment, in the order in which they make them.
\<close>

datatype effect =
    Fetch request
  | UpdateTask nat Task
  | ConsoleError string
  | OnTaskCreate js_string
  | ShowSuccessToast string
  | ShowErrorToast string
  | OnSave Project
  | OnClose

section \<open>Projects.tsx: the project detail view\<close>

text \<open>
  The state of the component: the project, its tasks, the loading flag and the error
  message (\<^verbatim>\<open>null\<close> at the start). A state variable \<open>v\<close> is \<open>v_D\<close> here.
\<close>

record details_state =
  project_D :: "Project option"
  tasks_D :: "Task list"
  loading_D :: bool
  error_D :: "string option"

subsection \<open>fetchProject\<close>

text \<open>
  The effect runs \<^verbatim>\<open>fetchProject\<close> once; the model takes what the fetch gave and
  returns the state after the call has settled. An exception raised in the \<^verbatim>\<open>try\<close>
  block, by the fetch, by the parser, by reading a property of \<^verbatim>\<open>null\<close> or by the
  \<^verbatim>\<open>throw\<close> of the error branch, has its message stored by \<^verbatim>\<open>setError\<close>;
  \<^verbatim>\<open>finally\<close> runs \<^verbatim>\<open>setLoading(false)\<close> on every path. On an ok response
  \<^verbatim>\<open>setProject(data)\<close> runs before \<^verbatim>\<open>data.tasks\<close> is read, so a body that is \<^verbatim>\<open>null\<close>
  makes the project \<^verbatim>\<open>null\<close> and then raises.
\<close>

definition fetchProject :: "Project fetch_result \<Rightarrow> details_state \<Rightarrow> details_state" where
  "fetchProject result st =
     (case result of
        NetworkError message \<Rightarrow> st\<lparr>error_D := Some message, loading_D := False\<rparr>
      | Response ok json \<Rightarrow>
          (case json of
             NotJson message \<Rightarrow> st\<lparr>error_D := Some message, loading_D := False\<rparr>
           | Json props data \<Rightarrow>
               if ok then
                 (case props of
                    Raises message \<Rightarrow>
                      st\<lparr>project_D := None, error_D := Some (message ''tasks''),
                         loading_D := False\<rparr>
                  | Gives err \<Rightarrow>
                      st\<lparr>project_D := Some data,
                         tasks_D := (case tasks_P data of None \<Rightarrow> [] | Some ts \<Rightarrow> ts),
                         loading_D := False\<rparr>)
               else
                 (case props of
                    Raises message \<Rightarrow>
                      st\<lparr>error_D := Some (message ''error''), loading_D := False\<rparr>
                  | Gives err \<Rightarrow>
                      st\<lparr>error_D := Some (orElse err ''Failed to fetch project.''),
                         loading_D := False\<rparr>)))"

text \<open>The three returns of the component: the loading view, the error view, the project.\<close>

datatype details_view = LoadingView | ErrorView string | ProjectView

definition render :: "details_state \<Rightarrow> details_view" where
  "render st =
     (if loading_D st then LoadingView
      else (case error_D st of
              None \<Rightarrow> ProjectView
            | Some message \<Rightarrow> if message = [] then ProjectView else ErrorView message))"

subsection \<open>handleTaskCreate\<close>

text \<open>
  One call of the handler. The handler is a closure of a render: \<^verbatim>\<open>project\<close> and
  \<^verbatim>\<open>tasks\<close> in its body are the values of that render, the state \<open>rendered\<close>, and
  \<^verbatim>\<open>setTasks([...tasks, newTask])\<close> writes that list, extended, over the list of the
  state in which the response arrives, the state \<open>current\<close>. The fetch is a parameter:
  it maps the request to what the network gave. The parsed value is appended as it is.
  Every exception of the \<^verbatim>\<open>try\<close> block is caught and logged.
\<close>

definition taskRequest :: "task_data \<Rightarrow> nat \<Rightarrow> request" where
  "taskRequest taskData i =
     \<lparr>url = ''/api/task'', http_method = ''POST'',
      body = Some (taskData(''project_id'' \<mapsto> Number i))\<rparr>"

definition handleTaskCreate ::
  "(request \<Rightarrow> Task fetch_result) \<Rightarrow> details_state \<Rightarrow> task_data \<Rightarrow> details_state \<Rightarrow>
   effect list \<times> details_state" where
  "handleTaskCreate fetch rendered taskData current =
     (case project_D rendered of
        None \<Rightarrow> ([ConsoleError ''Project ID is missing''], current)
      | Some p \<Rightarrow>
          if falsyId (id_P p) then ([ConsoleError ''Project ID is missing''], current)
          else
            (let req = taskRequest taskData (the (id_P p)) in
             case fetch req of
               NetworkError message \<Rightarrow>
                 ([Fetch req, ConsoleError ''Error creating task:''], current)
             | Response ok json \<Rightarrow>
                 (case json of
                    NotJson message \<Rightarrow>
                      ([Fetch req, ConsoleError ''Error creating task:''], current)
                  | Json props newTask \<Rightarrow>
                      if ok then
                        ([Fetch req], current\<lparr>tasks_D := tasks_D rendered @ [newTask]\<rparr>)
                      else ([Fetch req, ConsoleError ''Error creating task:''], current))))"

fun isFetch :: "effect \<Rightarrow> bool" where
  "isFetch (Fetch req) = True"
| "isFetch other = False"

subsection \<open>handleTaskUpdate\<close>

text \<open>
  \<^verbatim>\<open>updateTask\<close> comes from a hook that is not among the sources: the promise it returns
  is a parameter of the model. The state update is functional, on the list at the time
  the update runs.
\<close>

definition handleTaskUpdate ::
  "(nat \<Rightarrow> Task \<Rightarrow> outcome) \<Rightarrow> Task \<Rightarrow> details_state \<Rightarrow> effect list \<times> details_state" where
  "handleTaskUpdate updateTask updatedTask st =
     (case id_T updatedTask of
        None \<Rightarrow> ([ConsoleError ''Cannot update task: Task ID is missing''], st)
      | Some i \<Rightarrow>
          (case updateTask i updatedTask of
             Resolved \<Rightarrow>
               ([UpdateTask i updatedTask],
                st\<lparr>tasks_D :=
                     map (\<lambda>task. if id_T task = id_T updatedTask then updatedTask else task)
                       (tasks_D st)\<rparr>)
           | Rejected \<Rightarrow> ([UpdateTask i updatedTask, ConsoleError ''Error updating task:''], st)))"

fun isUpdateTask :: "effect \<Rightarrow> bool" where
  "isUpdateTask (UpdateTask i task) = True"
| "isUpdateTask other = False"

section \<open>NewTask.tsx: the new-task field\<close>

text \<open>
  The state of the component is the content of the input field. \<^verbatim>\<open>onTaskCreate\<close> is
  a property of the component; whether the awaited call succeeds or raises is a
  parameter of the model. An empty string is falsy, so \<^verbatim>\<open>taskName.trim()\<close> as a
  condition says that the trimmed name is not empty.
\<close>

definition handleKeyDown ::
  "(js_string \<Rightarrow> outcome) \<Rightarrow> js_string \<Rightarrow> js_string \<Rightarrow> effect list \<times> js_string" where
  "handleKeyDown onTaskCreate key taskName =
     (if key = js ''Enter'' \<and> trim taskName \<noteq> [] then
        (case onTaskCreate (trim taskName) of
           Resolved \<Rightarrow>
             ([OnTaskCreate (trim taskName), ShowSuccessToast ''Task created successfully!''], [])
         | Rejected \<Rightarrow>
             ([OnTaskCreate (trim taskName), ConsoleError ''Error creating task:'',
               ShowErrorToast ''Failed to create task.''], taskName))
      else ([], taskName))"

section \<open>The project dialog\<close>

text \<open>
  The state of the dialog is \<^verbatim>\<open>formData\<close>. The form has four controls whose
  \<^verbatim>\<open>onChange\<close> is \<^verbatim>\<open>handleChange\<close>: the text input \<^verbatim>\<open>name\<close>, the text area
  \<^verbatim>\<open>description\<close>, the select \<^verbatim>\<open>area_id\<close> and the checkbox \<^verbatim>\<open>active\<close>. A change
  event writes the value of the control, or its checked state for the checkbox, into the
  field that has the name of the control.
\<close>

datatype change_event =
    NameInput js_string
  | DescriptionTextarea string
  | AreaSelect string
  | ActiveCheckbox bool

fun handleChange :: "change_event \<Rightarrow> Project \<Rightarrow> Project" where
  "handleChange (NameInput v) prev = prev\<lparr>name_P := v\<rparr>"
| "handleChange (DescriptionTextarea v) prev = prev\<lparr>description_P := Some v\<rparr>"
| "handleChange (AreaSelect v) prev = prev\<lparr>area_id_P := AreaString v\<rparr>"
| "handleChange (ActiveCheckbox checked) prev = prev\<lparr>active_P := checked\<rparr>"

text \<open>
  \<^verbatim>\<open>handleSubmit\<close> passes the form data to \<^verbatim>\<open>onSave\<close> and closes the dialog;
  \<^verbatim>\<open>handleClose\<close> calls \<^verbatim>\<open>onClose\<close> from a timer. The handler does not look at the
  form data.
\<close>

definition handleSubmit :: "Project \<Rightarrow> effect list" where
  "handleSubmit formData = [OnSave formData, OnClose]"

text \<open>
  The events that reach the handlers of an open dialog: a change event of a control, a
  submit event of the form, and another project to edit passed by the parent component,
  which replaces the form data.
\<close>

datatype modal_event = Change change_event | Submit | ProjectProp Project

fun modalStep :: "modal_event \<Rightarrow> Project \<Rightarrow> effect list \<times> Project" where
  "modalStep (Change e) formData = ([], handleChange e formData)"
| "modalStep Submit formData = (handleSubmit formData, formData)"
| "modalStep (ProjectProp p) formData = ([], p)"

fun modalRun :: "modal_event list \<Rightarrow> Project \<Rightarrow> effect list" where
  "modalRun [] formData = []"
| "modalRun (e # es) formData =
     fst (modalStep e formData) @ modalRun es (snd (modalStep e formData))"

text \<open>The form data after a sequence of events.\<close>

fun formAfter :: "modal_event list \<Rightarrow> Project \<Rightarrow> Project" where
  "formAfter [] formData = formData"
| "formAfter (e # es) formData = formAfter es (snd (modalStep e formData))"

section \<open>Sample data\<close>

text \<open>A task that the server has given the id \<open>i\<close>, and a detail view that has loaded.\<close>

definition taskNamed :: "nat \<Rightarrow> string \<Rightarrow> Task" where
  "taskNamed i n = \<lparr>id_T = Some i, name_T = js n, status_T = Not_started\<rparr>"

definition loadedDetails :: "Project \<Rightarrow> Task list \<Rightarrow> details_state" where
  "loadedDetails p ts = \<lparr>project_D = Some p, tasks_D = ts, loading_D = False, error_D = None\<rparr>"

text \<open>A project with a name and nothing else.\<close>

definition projectNamed :: "js_string \<Rightarrow> Project" where
  "projectNamed n = emptyFormData\<lparr>name_P := n\<rparr>"

section \<open>Properties of the string primitives\<close>

text \<open>The definitions that evaluate the string functions on a literal.\<close>

lemmas string_eval =
  nameWords_def trim_def isWhiteSpace_def js_def toUpperCase_def toLowerCase_def
  isAscii_def upperUnit_def lowerUnit_def

lemma splitOn_nonempty: "splitOn sep s \<noteq> []"
  by (induction s) (auto split: list.splits)

lemma splitOn_no_sep: "w \<in> set (splitOn sep s) \<Longrightarrow> sep \<notin> set w"
proof (induction s arbitrary: w)
  case Nil
  then show ?case by simp
next
  case (Cons c cs)
  show ?case
  proof (cases "c = sep")
    case True
    with Cons show ?thesis by auto
  next
    case False
    obtain v vs where split_cs: "splitOn sep cs = v # vs"
      using splitOn_nonempty [of sep cs] by (cases "splitOn sep cs") auto
    with Cons.prems False have "w = c # v \<or> w \<in> set vs" by simp
    then show ?thesis
    proof
      assume "w = c # v"
      moreover have "sep \<notin> set v" using Cons.IH [of v] split_cs by simp
      ultimately show ?thesis using False by auto
    next
      assume "w \<in> set vs"
      then show ?thesis using Cons.IH [of w] split_cs by simp
    qed
  qed
qed

text \<open>Putting the separator back between the pieces gives the string that was split.\<close>

lemma joinWith_splitOn: "joinWith sep (splitOn sep s) = s"
proof (induction s)
  case Nil
  then show ?case by simp
next
  case (Cons c cs)
  obtain v vs where split_cs: "splitOn sep cs = v # vs"
    using splitOn_nonempty [of sep cs] by (cases "splitOn sep cs") auto
  show ?case
  proof (cases "c = sep")
    case True
    with Cons split_cs show ?thesis by simp
  next
    case False
    with Cons split_cs show ?thesis by (cases vs) auto
  qed
qed

lemma startsWith_iff: "startsWith s q \<longleftrightarrow> (\<exists>ys. s = q @ ys)"
  by (induction s q rule: startsWith.induct) auto

lemma includes_iff: "includes_str s q \<longleftrightarrow> (\<exists>xs ys. s = xs @ q @ ys)"
proof (induction s)
  case Nil
  then show ?case by simp
next
  case (Cons c cs)
  have "(\<exists>xs ys. c # cs = xs @ q @ ys) \<longleftrightarrow>
        (\<exists>ys. c # cs = q @ ys) \<or> (\<exists>xs ys. cs = xs @ q @ ys)"
  proof
    assume "\<exists>xs ys. c # cs = xs @ q @ ys"
    then obtain xs ys where eq: "c # cs = xs @ q @ ys" by blast
    show "(\<exists>ys. c # cs = q @ ys) \<or> (\<exists>xs ys. cs = xs @ q @ ys)"
    proof (cases xs)
      case Nil
      with eq show ?thesis by auto
    next
      case (Cons x xs')
      with eq have "cs = xs' @ q @ ys" by simp
      then show ?thesis by blast
    qed
  next
    assume "(\<exists>ys. c # cs = q @ ys) \<or> (\<exists>xs ys. cs = xs @ q @ ys)"
    then show "\<exists>xs ys. c # cs = xs @ q @ ys"
    proof
      assume "\<exists>ys. c # cs = q @ ys"
      then obtain ys where "c # cs = [] @ q @ ys" by auto
      then show ?thesis by blast
    next
      assume "\<exists>xs ys. cs = xs @ q @ ys"
      then obtain xs ys where "c # cs = (c # xs) @ q @ ys" by auto
      then show ?thesis by blast
    qed
  qed
  with Cons show ?case by (simp add: startsWith_iff)
qed

lemma includes_empty: "includes_str s []"
proof -
  have "s = [] @ [] @ s" by simp
  then show ?thesis unfolding includes_iff by blast
qed

lemma trim_empty_iff: "trim s = [] \<longleftrightarrow> (\<forall>c \<in> set s. isWhiteSpace c)"
proof -
  have "trim s = [] \<longleftrightarrow> (\<forall>c \<in> set (dropWhile isWhiteSpace s). isWhiteSpace c)"
    by (simp add: trim_def dropWhile_eq_Nil_conv)
  also have "\<dots> \<longleftrightarrow> dropWhile isWhiteSpace s = []"
  proof
    assume all: "\<forall>c \<in> set (dropWhile isWhiteSpace s). isWhiteSpace c"
    show "dropWhile isWhiteSpace s = []"
    proof (rule ccontr)
      assume ne: "dropWhile isWhiteSpace s \<noteq> []"
      then have "\<not> isWhiteSpace (hd (dropWhile isWhiteSpace s))"
        by (rule hd_dropWhile)
      moreover have "hd (dropWhile isWhiteSpace s) \<in> set (dropWhile isWhiteSpace s)"
        using ne by simp
      ultimately show False using all by blast
    qed
  next
    assume e: "dropWhile isWhiteSpace s = []"
    show "\<forall>c \<in> set (dropWhile isWhiteSpace s). isWhiteSpace c"
      unfolding e by simp
  qed
  also have "\<dots> \<longleftrightarrow> (\<forall>c \<in> set s. isWhiteSpace c)"
    by (rule dropWhile_eq_Nil_conv)
  finally show ?thesis .
qed

text \<open>Trimming removes a run of white space at each end and nothing else.\<close>

lemma trim_decomposition:
  "\<exists>a b. s = a @ trim s @ b \<and> (\<forall>c \<in> set a. isWhiteSpace c) \<and> (\<forall>c \<in> set b. isWhiteSpace c)"
proof -
  let ?r = "dropWhile isWhiteSpace s"
  let ?a = "takeWhile isWhiteSpace s"
  let ?b = "rev (takeWhile isWhiteSpace (rev ?r))"
  have "trim s @ ?b =
        rev (takeWhile isWhiteSpace (rev ?r) @ dropWhile isWhiteSpace (rev ?r))"
    by (simp only: trim_def rev_append)
  also have "\<dots> = rev (rev ?r)"
    by (simp only: takeWhile_dropWhile_id)
  also have "\<dots> = ?r"
    by (simp only: rev_rev_ident)
  finally have "?r = trim s @ ?b" by (rule sym)
  moreover have "s = ?a @ ?r" by simp
  ultimately have "s = ?a @ trim s @ ?b" by simp
  moreover have "\<forall>c \<in> set ?a. isWhiteSpace c"
    by (auto dest: set_takeWhileD)
  moreover have "\<forall>c \<in> set ?b. isWhiteSpace c"
    by (auto dest: set_takeWhileD)
  ultimately show ?thesis by blast
qed

text \<open>White space around a string does not change what trimming gives.\<close>

lemma trim_surrounding:
  assumes a: "\<forall>c \<in> set a. isWhiteSpace c" and b: "\<forall>c \<in> set b. isWhiteSpace c"
  shows "trim (a @ s @ b) = trim s"
proof -
  have front: "dropWhile isWhiteSpace (a @ s @ b) = dropWhile isWhiteSpace (s @ b)"
    using a by (intro dropWhile_append2) simp
  show ?thesis
  proof (cases "\<forall>c \<in> set s. isWhiteSpace c")
    case True
    with b have "\<forall>c \<in> set (s @ b). isWhiteSpace c" by auto
    then have "dropWhile isWhiteSpace (s @ b) = []"
      by (simp only: dropWhile_eq_Nil_conv)
    with front have d: "dropWhile isWhiteSpace (a @ s @ b) = []" by (simp only:)
    have "trim (a @ s @ b) = []" unfolding trim_def d by simp
    moreover from True have "trim s = []" by (simp only: trim_empty_iff)
    ultimately show ?thesis by simp
  next
    case False
    then obtain x where "x \<in> set s" "\<not> isWhiteSpace x" by blast
    then have "dropWhile isWhiteSpace (s @ b) = dropWhile isWhiteSpace s @ b"
      by (rule dropWhile_append1)
    with front have d: "dropWhile isWhiteSpace (a @ s @ b) = dropWhile isWhiteSpace s @ b"
      by (simp only:)
    have r: "dropWhile isWhiteSpace (rev b @ rev (dropWhile isWhiteSpace s)) =
        dropWhile isWhiteSpace (rev (dropWhile isWhiteSpace s))"
      using b by (intro dropWhile_append2) simp
    show ?thesis unfolding trim_def d rev_append r ..
  qed
qed

section \<open>Properties of the projects grid\<close>

lemma nameWords_nonempty: "w \<in> set (nameWords name) \<Longrightarrow> w \<noteq> []"
  by (auto simp: nameWords_def)

lemma nameWords_surrounding:
  "\<forall>c \<in> set a. isWhiteSpace c \<Longrightarrow> \<forall>c \<in> set b. isWhiteSpace c \<Longrightarrow>
   nameWords (a @ name @ b) = nameWords name"
  by (simp add: nameWords_def trim_surrounding)

lemma mapE_firstUpper:
  "\<forall>w \<in> set ws. w \<noteq> [] \<Longrightarrow>
   mapE (firstUpper unicodeUpper) ws = Inr (map (\<lambda>w. toUpperCase unicodeUpper (take 1 w)) ws)"
proof (induction ws)
  case Nil
  then show ?case by simp
next
  case (Cons w ws)
  then obtain c cs where "w = c # cs" by (cases w) auto
  with Cons show ?case by simp
qed

text \<open>
  C9. getProjectInitials never raises. The words of a name are the pieces of the trimmed
  name between single spaces, without the empty pieces: no word is empty, no word has a
  space, and white space around the name does not change them. When there is exactly one
  word, the result is the whole original name in upper case, leading and trailing white
  space included. When there are two or more words, the result is the upper-cased first
  code units of the words, concatenated in order.
\<close>

theorem getProjectInitials_cases:
  "(\<forall>w \<in> set (nameWords name). w \<noteq> [] \<and> 0x20 \<notin> set w) \<and>
   ((\<forall>c \<in> set a. isWhiteSpace c) \<and> (\<forall>c \<in> set b. isWhiteSpace c) \<longrightarrow>
      nameWords (a @ name @ b) = nameWords name) \<and>
   (length (nameWords name) = 1 \<longrightarrow>
      getProjectInitials unicodeUpper name = Inr (toUpperCase unicodeUpper name)) \<and>
   (2 \<le> length (nameWords name) \<longrightarrow>
      getProjectInitials unicodeUpper name =
        Inr (concat (map (\<lambda>w. toUpperCase unicodeUpper (take 1 w)) (nameWords name))))"
proof -
  have words: "\<forall>w \<in> set (nameWords name). w \<noteq> []"
    using nameWords_nonempty by blast
  have no_space: "\<forall>w \<in> set (nameWords name). 0x20 \<notin> set w"
    using splitOn_no_sep by (auto simp: nameWords_def)
  have around: "(\<forall>c \<in> set a. isWhiteSpace c) \<and> (\<forall>c \<in> set b. isWhiteSpace c) \<longrightarrow>
      nameWords (a @ name @ b) = nameWords name"
    using nameWords_surrounding by blast
  have one: "length (nameWords name) = 1 \<longrightarrow>
      getProjectInitials unicodeUpper name = Inr (toUpperCase unicodeUpper name)"
    by (simp add: getProjectInitials_def)
  have many: "2 \<le> length (nameWords name) \<longrightarrow>
      getProjectInitials unicodeUpper name =
        Inr (concat (map (\<lambda>w. toUpperCase unicodeUpper (take 1 w)) (nameWords name)))"
    using mapE_firstUpper [OF words] by (simp add: getProjectInitials_def)
  from words no_space around one many show ?thesis by blast
qed

theorem getProjectInitials_cases_witness:
  "length (nameWords (js '' inbox '')) = 1 \<and>
   getProjectInitials (\<lambda>s. s) (js '' inbox '') = Inr (js '' INBOX '') \<and>
   2 \<le> length (nameWords ([0xA0] @ js ''home  renovation plan'' @ [0x20, 0x9])) \<and>
   getProjectInitials (\<lambda>s. s) ([0xA0] @ js ''home  renovation plan'' @ [0x20, 0x9]) =
     Inr (js ''HRP'') \<and>
   length (nameWords [0x63, 0x61, 0x66, 0xE9]) = 1 \<and>
   getProjectInitials (\<lambda>s. if s = [0x63, 0x61, 0x66, 0xE9] then [0x43, 0x41, 0x46, 0xC9] else s)
     [0x63, 0x61, 0x66, 0xE9] = Inr [0x43, 0x41, 0x46, 0xC9]"
proof -
  let ?n2 = "[0xA0] @ js ''home  renovation plan'' @ [0x20, 0x9]"
  let ?cafe = "[0x63, 0x61, 0x66, 0xE9] :: js_string"
  let ?U = "\<lambda>s :: js_string. if s = ?cafe then [0x43, 0x41, 0x46, 0xC9] else s"
  have w1: "nameWords (js '' inbox '') = [js ''inbox'']" by (simp add: string_eval)
  have w2: "nameWords ?n2 = [js ''home'', js ''renovation'', js ''plan'']" by (simp add: string_eval)
  have w3: "nameWords ?cafe = [?cafe]" by (simp add: string_eval)
  have u1: "toUpperCase (\<lambda>s. s) (js '' inbox '') = js '' INBOX ''" by (simp add: string_eval)
  have u2: "concat (map (\<lambda>w. toUpperCase (\<lambda>s. s) (take 1 w))
              [js ''home'', js ''renovation'', js ''plan'']) = js ''HRP''" by (simp add: string_eval)
  have u3: "toUpperCase ?U ?cafe = [0x43, 0x41, 0x46, 0xC9]" by (simp add: string_eval)
  note one1 = getProjectInitials_cases
    [of "js '' inbox ''" "[]" "[]" "\<lambda>s. s", THEN conjunct2, THEN conjunct2, THEN conjunct1,
     rule_format]
  note many2 = getProjectInitials_cases
    [of ?n2 "[]" "[]" "\<lambda>s. s", THEN conjunct2, THEN conjunct2, THEN conjunct2, rule_format]
  note one3 = getProjectInitials_cases
    [of ?cafe "[]" "[]" ?U, THEN conjunct2, THEN conjunct2, THEN conjunct1, rule_format]
  have l1: "length (nameWords (js '' inbox '')) = 1" unfolding w1 by simp
  have l2: "2 \<le> length (nameWords ?n2)" unfolding w2 by simp
  have l3: "length (nameWords ?cafe) = 1" unfolding w3 by simp
  have r1: "getProjectInitials (\<lambda>s. s) (js '' inbox '') = Inr (js '' INBOX '')"
    using one1 [OF l1] unfolding u1 .
  have r2: "getProjectInitials (\<lambda>s. s) ?n2 = Inr (js ''HRP'')"
    using many2 [OF l2] unfolding w2 u2 .
  have r3: "getProjectInitials ?U ?cafe = Inr [0x43, 0x41, 0x46, 0xC9]"
    using one3 [OF l3] unfolding u3 .
  from l1 r1 l2 r2 l3 r3 show ?thesis by (intro conjI)
qed

lemma toLowerCase_empty: "toLowerCase unicodeLower [] = []"
  by (simp add: toLowerCase_def isAscii_def)

text \<open>
  C10. The filtered list is the project list restricted, in its order, to the projects
  whose lower-cased name has the lower-cased query as a substring; with the empty query
  it is the whole project list, and two queries with the same lower-case form give the
  same list.
\<close>

theorem filteredProjects_substring:
  "filteredProjects unicodeLower projects searchQuery =
     filter
       (\<lambda>project. \<exists>xs ys.
          toLowerCase unicodeLower (name_P project) =
            xs @ toLowerCase unicodeLower searchQuery @ ys)
       projects \<and>
   filteredProjects unicodeLower projects [] = projects \<and>
   (toLowerCase unicodeLower searchQuery = toLowerCase unicodeLower otherQuery \<longrightarrow>
      filteredProjects unicodeLower projects searchQuery =
        filteredProjects unicodeLower projects otherQuery)"
proof -
  have "filteredProjects unicodeLower projects searchQuery =
     filter
       (\<lambda>project. \<exists>xs ys.
          toLowerCase unicodeLower (name_P project) =
            xs @ toLowerCase unicodeLower searchQuery @ ys)
       projects"
    by (simp add: filteredProjects_def includes_iff)
  moreover have "filteredProjects unicodeLower projects [] = projects"
    by (simp add: filteredProjects_def includes_empty toLowerCase_empty)
  moreover have "toLowerCase unicodeLower searchQuery = toLowerCase unicodeLower otherQuery \<longrightarrow>
      filteredProjects unicodeLower projects searchQuery =
        filteredProjects unicodeLower projects otherQuery"
    by (simp add: filteredProjects_def)
  ultimately show ?thesis by blast
qed

theorem filteredProjects_substring_witness:
  "toLowerCase (\<lambda>s. s) (js ''REN'') = toLowerCase (\<lambda>s. s) (js ''ren'') \<and>
   filteredProjects (\<lambda>s. s)
     [projectNamed (js ''Home Renovation''), projectNamed (js ''Work'')] (js ''ren'') =
     [projectNamed (js ''Home Renovation'')] \<and>
   filteredProjects (\<lambda>s. s)
     [projectNamed (js ''Home Renovation''), projectNamed (js ''Work'')] (js ''REN'') =
     [projectNamed (js ''Home Renovation'')] \<and>
   filteredProjects (\<lambda>s. if s = [0x43, 0x41, 0x46, 0xC9] then [0x63, 0x61, 0x66, 0xE9] else s)
     [projectNamed [0x43, 0x41, 0x46, 0xC9]] [0x63, 0x61, 0x66, 0xE9] =
     [projectNamed [0x43, 0x41, 0x46, 0xC9]]"
proof -
  let ?ps = "[projectNamed (js ''Home Renovation''), projectNamed (js ''Work'')]"
  let ?L = "\<lambda>s :: js_string. if s = [0x43, 0x41, 0x46, 0xC9] then [0x63, 0x61, 0x66, 0xE9] else s"
  have same: "toLowerCase (\<lambda>s. s) (js ''REN'') = toLowerCase (\<lambda>s. s) (js ''ren'')"
    by (simp add: string_eval)
  have lower: "filteredProjects (\<lambda>s. s) ?ps (js ''ren'') = [projectNamed (js ''Home Renovation'')]"
    by (simp add: filteredProjects_def projectNamed_def string_eval)
  have upper: "filteredProjects (\<lambda>s. s) ?ps (js ''REN'') = filteredProjects (\<lambda>s. s) ?ps (js ''ren'')"
    using filteredProjects_substring
      [of "\<lambda>s. s" ?ps "js ''REN''" "js ''ren''", THEN conjunct2, THEN conjunct2, rule_format]
      same .
  have cafe: "filteredProjects ?L [projectNamed [0x43, 0x41, 0x46, 0xC9]] [0x63, 0x61, 0x66, 0xE9] =
     [projectNamed [0x43, 0x41, 0x46, 0xC9]]"
    by (simp add: filteredProjects_def projectNamed_def string_eval)
  from same lower upper cafe show ?thesis by simp
qed

section \<open>Properties of the query string\<close>

lemma get_delete_same: "get_param k (delete_param k params) = None"
  by (induction params) (auto simp: get_param_def delete_param_def)

lemma getAll_delete_same: "getAll_param k (delete_param k params) = []"
  by (induction params) (auto simp: getAll_param_def delete_param_def)

lemma get_delete_other: "k' \<noteq> k \<Longrightarrow> get_param k' (delete_param k params) = get_param k' params"
  by (induction params) (auto simp: get_param_def delete_param_def)

lemma getAll_delete_other:
  "k' \<noteq> k \<Longrightarrow> getAll_param k' (delete_param k params) = getAll_param k' params"
  by (induction params) (auto simp: getAll_param_def delete_param_def)

lemma other_delete: "other_params k (delete_param k params) = other_params k params"
  by (induction params) (auto simp: other_params_def delete_param_def)

lemma get_set_same: "get_param k (set_param k v params) = Some v"
  by (induction params) (auto simp: get_param_def)

lemma getAll_set_same: "getAll_param k (set_param k v params) = [v]"
proof (induction params)
  case Nil
  then show ?case by (simp add: getAll_param_def)
next
  case (Cons kv params)
  show ?case
  proof (cases "fst kv = k")
    case True
    have "getAll_param k ((k, v) # delete_param k params) = v # getAll_param k (delete_param k params)"
      by (simp add: getAll_param_def)
    with True show ?thesis by (simp add: getAll_delete_same)
  next
    case False
    with Cons show ?thesis by (simp add: getAll_param_def)
  qed
qed

lemma get_set_other: "k' \<noteq> k \<Longrightarrow> get_param k' (set_param k v params) = get_param k' params"
proof (induction params)
  case Nil
  then show ?case by (simp add: get_param_def)
next
  case (Cons kv params)
  show ?case
  proof (cases "fst kv = k")
    case True
    have "get_param k' ((k, v) # delete_param k params) = get_param k' (delete_param k params)"
      using Cons.prems by (simp add: get_param_def)
    also have "\<dots> = get_param k' params"
      using Cons.prems by (rule get_delete_other)
    also have "\<dots> = get_param k' (kv # params)"
      using Cons.prems True by (cases kv) (simp add: get_param_def)
    finally show ?thesis using True by simp
  next
    case False
    have "get_param k' (kv # set_param k v params) = get_param k' (kv # params)"
      using Cons.IH [OF Cons.prems] by (cases kv) (simp add: get_param_def)
    with False show ?thesis by simp
  qed
qed

lemma other_set: "other_params k (set_param k v params) = other_params k params"
proof (induction params)
  case Nil
  then show ?case by (simp add: other_params_def)
next
  case (Cons kv params)
  show ?case
  proof (cases "fst kv = k")
    case True
    have "other_params k ((k, v) # delete_param k params) = other_params k (delete_param k params)"
      by (simp add: other_params_def)
    with True show ?thesis by (simp add: other_delete) (simp add: other_params_def)
  next
    case False
    have "other_params k (kv # set_param k v params) = kv # other_params k (set_param k v params)"
      using False by (simp add: other_params_def)
    with False Cons show ?thesis by (simp add: other_params_def)
  qed
qed

lemma getAll_other_params:
  "k' \<noteq> k \<Longrightarrow> getAll_param k' (other_params k params) = getAll_param k' params"
  by (induction params) (auto simp: getAll_param_def other_params_def)

lemma active_filter_others:
  "other_params ''active'' (handleActiveFilterChange searchParams v) =
   other_params ''active'' searchParams"
  by (simp add: handleActiveFilterChange_def other_delete other_set)

lemma area_filter_others:
  "other_params ''area_id'' (handleAreaFilterChange searchParams a) =
   other_params ''area_id'' searchParams"
  by (simp add: handleAreaFilterChange_def other_delete other_set)

lemma active_filter_get_other:
  "k \<noteq> ''active'' \<Longrightarrow>
   get_param k (handleActiveFilterChange searchParams v) = get_param k searchParams"
  by (simp add: handleActiveFilterChange_def get_delete_other get_set_other)

lemma area_filter_get_other:
  "k \<noteq> ''area_id'' \<Longrightarrow>
   get_param k (handleAreaFilterChange searchParams a) = get_param k searchParams"
  by (simp add: handleAreaFilterChange_def get_delete_other get_set_other)

text \<open>
  C6. A change of the status filter touches the parameter \<^verbatim>\<open>active\<close> only: the value
  \<^verbatim>\<open>all\<close> deletes it and any other value becomes its single value. A change of the area
  filter touches \<^verbatim>\<open>area_id\<close> only: the empty option deletes it and any other option
  becomes its single value. In both cases the pairs of every other name stay as they
  were, in their order, so every other parameter reads as before.
\<close>

theorem filter_change_frame:
  "get_param ''active'' (handleActiveFilterChange searchParams ''all'') = None \<and>
   (v \<noteq> ''all'' \<longrightarrow>
      get_param ''active'' (handleActiveFilterChange searchParams v) = Some v \<and>
      getAll_param ''active'' (handleActiveFilterChange searchParams v) = [v]) \<and>
   other_params ''active'' (handleActiveFilterChange searchParams v) =
     other_params ''active'' searchParams \<and>
   (\<forall>k. k \<noteq> ''active'' \<longrightarrow>
      get_param k (handleActiveFilterChange searchParams v) = get_param k searchParams) \<and>
   get_param ''area_id'' (handleAreaFilterChange searchParams []) = None \<and>
   (a \<noteq> [] \<longrightarrow>
      get_param ''area_id'' (handleAreaFilterChange searchParams a) = Some a \<and>
      getAll_param ''area_id'' (handleAreaFilterChange searchParams a) = [a]) \<and>
   other_params ''area_id'' (handleAreaFilterChange searchParams a) =
     other_params ''area_id'' searchParams \<and>
   (\<forall>k. k \<noteq> ''area_id'' \<longrightarrow>
      get_param k (handleAreaFilterChange searchParams a) = get_param k searchParams)"
proof -
  have active_all: "get_param ''active'' (handleActiveFilterChange searchParams ''all'') = None"
    by (simp add: handleActiveFilterChange_def get_delete_same)
  have active_set: "v \<noteq> ''all'' \<longrightarrow>
      get_param ''active'' (handleActiveFilterChange searchParams v) = Some v \<and>
      getAll_param ''active'' (handleActiveFilterChange searchParams v) = [v]"
    by (simp add: handleActiveFilterChange_def get_set_same getAll_set_same)
  have area_none: "get_param ''area_id'' (handleAreaFilterChange searchParams []) = None"
    by (simp add: handleAreaFilterChange_def get_delete_same)
  have area_set: "a \<noteq> [] \<longrightarrow>
      get_param ''area_id'' (handleAreaFilterChange searchParams a) = Some a \<and>
      getAll_param ''area_id'' (handleAreaFilterChange searchParams a) = [a]"
    by (simp add: handleAreaFilterChange_def get_set_same getAll_set_same)
  from active_all active_set area_none area_set
    active_filter_others [of searchParams v] area_filter_others [of searchParams a]
    active_filter_get_other [of _ searchParams v] area_filter_get_other [of _ searchParams a]
  show ?thesis by blast
qed

theorem filter_change_frame_witness:
  "''false'' \<noteq> ''all'' \<and> ''3'' \<noteq> [] \<and> ''q'' \<noteq> ''active'' \<and> ''active'' \<noteq> ''area_id'' \<and>
   get_param ''active''
     (handleActiveFilterChange [(''active'', ''true''), (''q'', ''x''), (''active'', ''all'')]
        ''false'') = Some ''false'' \<and>
   getAll_param ''active''
     (handleActiveFilterChange [(''active'', ''true''), (''q'', ''x''), (''active'', ''all'')]
        ''false'') = [''false''] \<and>
   get_param ''q''
     (handleActiveFilterChange [(''active'', ''true''), (''q'', ''x''), (''active'', ''all'')]
        ''false'') = Some ''x'' \<and>
   get_param ''area_id''
     (handleAreaFilterChange [(''active'', ''true''), (''q'', ''x''), (''active'', ''all'')]
        ''3'') = Some ''3'' \<and>
   get_param ''active''
     (handleAreaFilterChange [(''active'', ''true''), (''q'', ''x''), (''active'', ''all'')]
        ''3'') = Some ''true''"
proof -
  let ?sp = "[(''active'', ''true''), (''q'', ''x''), (''active'', ''all'')]"
  have ne: "''false'' \<noteq> ''all''" "''3'' \<noteq> []" "''q'' \<noteq> ''active''" "''active'' \<noteq> ''area_id''"
    by simp_all
  have old: "get_param ''q'' ?sp = Some ''x''" "get_param ''active'' ?sp = Some ''true''"
    by (simp_all add: get_param_def)
  from filter_change_frame [of ?sp "''false''" "''3''"] ne old
  show ?thesis by simp
qed

section \<open>Properties of the numbers\<close>

lemma roundTiesToEven_error: "\<bar>of_int (roundTiesToEven m) - m\<bar> \<le> 1 / 2"
proof -
  have "of_int \<lfloor>m\<rfloor> \<le> m" "m < of_int \<lfloor>m\<rfloor> + 1" by linarith+
  then show ?thesis
    by (auto simp: roundTiesToEven_def Let_def abs_le_iff)
qed

lemma roundTiesToEven_of_int: "roundTiesToEven (of_int k) = k"
  by (simp add: roundTiesToEven_def)

text \<open>The exponent that \<open>binade\<close> computes is the one of the binade that holds \<open>x\<close>.\<close>

lemma binade_le:
  assumes "0 < x"
  shows "2 powi binade x \<le> x"
proof -
  obtain p q where pq: "quotient_of x = (p, q)" by (cases "quotient_of x")
  then have q: "0 < q" by (rule quotient_of_denom_pos)
  from pq have x: "x = of_int p / of_int q" by (rule quotient_of_div)
  with assms q have p: "0 < p" by (simp add: zero_less_divide_iff)
  let ?e = "bitlen p - bitlen q"
  show ?thesis
  proof (cases "2 powi ?e \<le> x")
    case True
    then show ?thesis by (simp add: binade_def pq)
  next
    case False
    then have b: "binade x = ?e - 1" by (simp add: binade_def pq)
    from bitlen_bounds [OF p] have lp: "2 ^ nat (bitlen p - 1) \<le> p" by simp
    from bitlen_bounds [OF q] have uq: "q < 2 ^ nat (bitlen q)" by simp
    have bp: "1 \<le> bitlen p" using p by (auto simp: bitlen_alt_def)
    have bq: "0 \<le> bitlen q" by (rule bitlen_nonneg)
    have "(2::rat) powi (?e - 1) = 2 powi (bitlen p - 1) / 2 powi bitlen q"
      by (simp add: power_int_diff)
    also have "\<dots> = 2 ^ nat (bitlen p - 1) / 2 ^ nat (bitlen q)"
      using bp bq by (simp add: power_int_def)
    also have "\<dots> \<le> of_int p / of_int q"
    proof -
      have "(2::rat) ^ nat (bitlen p - 1) \<le> of_int p"
        using lp by (metis of_int_le_iff of_int_numeral of_int_power)
      moreover have "(of_int q :: rat) \<le> 2 ^ nat (bitlen q)"
        using uq by (metis less_imp_le of_int_le_iff of_int_numeral of_int_power)
      moreover have "(0::rat) < of_int q" using q by simp
      moreover have "(0::rat) \<le> of_int p" using p by simp
      ultimately show ?thesis by (intro frac_le)
    qed
    finally show ?thesis using b x by simp
  qed
qed

lemma binade_gt:
  assumes "0 < x"
  shows "x < 2 powi (binade x + 1)"
proof -
  obtain p q where pq: "quotient_of x = (p, q)" by (cases "quotient_of x")
  then have q: "0 < q" by (rule quotient_of_denom_pos)
  from pq have x: "x = of_int p / of_int q" by (rule quotient_of_div)
  with assms q have p: "0 < p" by (simp add: zero_less_divide_iff)
  let ?e = "bitlen p - bitlen q"
  show ?thesis
  proof (cases "2 powi ?e \<le> x")
    case False
    then show ?thesis by (simp add: binade_def pq)
  next
    case True
    then have b: "binade x = ?e" by (simp add: binade_def pq)
    from bitlen_bounds [OF p] have up: "p < 2 ^ nat (bitlen p)" by simp
    from bitlen_bounds [OF q] have lq: "2 ^ nat (bitlen q - 1) \<le> q" by simp
    have bq: "1 \<le> bitlen q" using q by (auto simp: bitlen_alt_def)
    have bp: "0 \<le> bitlen p" by (rule bitlen_nonneg)
    have "of_int p / of_int q < (2::rat) ^ nat (bitlen p) / 2 ^ nat (bitlen q - 1)"
    proof -
      have "(of_int p :: rat) < 2 ^ nat (bitlen p)"
        using up by (metis of_int_less_iff of_int_numeral of_int_power)
      moreover have "(2::rat) ^ nat (bitlen q - 1) \<le> of_int q"
        using lq by (metis of_int_le_iff of_int_numeral of_int_power)
      moreover have "(0::rat) < 2 ^ nat (bitlen q - 1)" by simp
      moreover have "(0::rat) \<le> of_int p" using p by simp
      ultimately show ?thesis by (intro frac_less) auto
    qed
    also have "\<dots> = 2 powi bitlen p / 2 powi (bitlen q - 1)"
      using bp bq by (simp add: power_int_def)
    also have "\<dots> = 2 powi (?e + 1)"
      by (simp add: power_int_diff [symmetric] algebra_simps)
    finally show ?thesis using b x by simp
  qed
qed

text \<open>Rounding changes a positive value by at most the fraction \<open>1 / 2 ^ 53\<close> of it.\<close>

lemma fl64_error:
  assumes "0 < x"
  shows "\<bar>fl64 x - x\<bar> \<le> x / 2 ^ 53"
proof -
  let ?s = "(2::rat) powi (binade x - 52)"
  have s: "0 < ?s" by simp
  have "fl64 x - x = (of_int (roundTiesToEven (x / ?s)) - x / ?s) * ?s"
    using assms s by (simp add: fl64_def field_simps)
  then have "\<bar>fl64 x - x\<bar> = \<bar>of_int (roundTiesToEven (x / ?s)) - x / ?s\<bar> * ?s"
    using s by (simp add: abs_mult)
  also have "\<dots> \<le> 1 / 2 * ?s"
    using roundTiesToEven_error [of "x / ?s"] s by (intro mult_right_mono) auto
  also have "\<dots> = 2 powi binade x / 2 ^ 53"
    by (simp add: power_int_diff)
  also have "\<dots> \<le> x / 2 ^ 53"
    using binade_le [OF assms] by (simp add: divide_right_mono)
  finally show ?thesis .
qed

lemma fl64_zero: "fl64 0 = 0"
  by (simp add: fl64_def)

lemma fl64_bounds:
  assumes "0 < x"
  shows "0 < fl64 x" and "fl64 x \<le> 2 * x"
proof -
  define u where "u = x / 2 ^ 53"
  have small: "u < x" using assms by (simp add: u_def field_simps)
  from fl64_error [OF assms] have "\<bar>fl64 x - x\<bar> \<le> u" by (simp only: u_def)
  with small show "0 < fl64 x" "fl64 x \<le> 2 * x" by linarith+
qed

text \<open>A natural number below \<open>2 ^ 53\<close> is a number of the language.\<close>

lemma fl64_of_nat:
  assumes "n < 2 ^ 53"
  shows "fl64 (of_nat n) = of_nat n"
proof (cases "n = 0")
  case True
  then show ?thesis by (simp add: fl64_def)
next
  case False
  let ?x = "of_nat n :: rat"
  let ?e = "binade ?x"
  have pos: "0 < ?x" using False by simp
  have "2 powi ?e \<le> ?x" using pos by (rule binade_le)
  also have "?x < 2 ^ 53" using assms by (metis of_nat_less_iff of_nat_numeral of_nat_power)
  finally have "(2::rat) powi ?e < 2 powi 53" by simp
  then have "?e < 53" by (rule power_int_le_imp_less_exp [rotated]) simp_all
  then have e: "?e \<le> 52" by simp
  then have scale: "(2::rat) powi (?e - 52) = 1 / 2 ^ nat (52 - ?e)"
    by (simp add: power_int_def nat_diff_distrib field_simps)
  then have "?x / 2 powi (?e - 52) = of_int (int n * 2 ^ nat (52 - ?e))"
    by simp
  then have "roundTiesToEven (?x / 2 powi (?e - 52)) = int n * 2 ^ nat (52 - ?e)"
    by (simp only: roundTiesToEven_of_int)
  then have "fl64 ?x = of_int (int n * 2 ^ nat (52 - ?e)) * 2 powi (?e - 52)"
    using False by (simp add: fl64_def)
  also have "\<dots> = ?x"
    using scale by simp
  finally show ?thesis .
qed

lemma fl64_sum:
  assumes "a + b + c < 2 ^ 53"
  shows "fl64 (fl64 (of_nat a + of_nat b) + of_nat c) = of_nat (a + b + c)"
proof -
  from assms have ab: "a + b < 2 ^ 53" by simp
  have "fl64 (of_nat a + of_nat b) = of_nat (a + b)"
    using fl64_of_nat [OF ab] by simp
  then show ?thesis using fl64_of_nat [OF assms] by simp
qed

text \<open>
  \<^verbatim>\<open>Math.round\<close> of a value that is within \<open>\<epsilon>\<close> of \<open>X\<close> is an integer nearest to
  \<open>X\<close>, provided that \<open>X\<close> is either exactly halfway between two integers or more
  than \<open>\<epsilon>\<close> away from every such point.
\<close>

lemma Math_round_near:
  assumes near: "\<bar>p - X\<bar> \<le> \<epsilon>"
    and far: "\<And>j :: int. X = of_int j + 1 / 2 \<or> \<epsilon> < \<bar>X - (of_int j + 1 / 2)\<bar>"
  shows "\<bar>of_int (Math_round p) - X\<bar> \<le> 1 / 2"
proof -
  define r where "r = Math_round p"
  define lo :: rat where "lo = of_int (r - 1) + 1 / 2"
  define hi :: rat where "hi = of_int r + 1 / 2"
  have "of_int r \<le> p + 1 / 2" "p + 1 / 2 < of_int r + 1"
    unfolding r_def Math_round_def by linarith+
  then have p: "lo \<le> p" "p < hi" and gap: "hi = lo + 1"
    by (simp_all add: lo_def hi_def)
  have lower: "lo \<le> X"
  proof (rule ccontr)
    assume "\<not> lo \<le> X"
    then have below: "X < lo" by simp
    with far [of "r - 1"] have "\<epsilon> < \<bar>X - lo\<bar>" unfolding lo_def by linarith
    with below p near show False by linarith
  qed
  have upper: "X \<le> hi"
  proof (rule ccontr)
    assume "\<not> X \<le> hi"
    then have above: "hi < X" by simp
    with far [of r] have "\<epsilon> < \<bar>X - hi\<bar>" unfolding hi_def by linarith
    with above p near show False by linarith
  qed
  have "of_int r = lo + 1 / 2" by (simp add: lo_def)
  with lower upper gap have "\<bar>of_int r - X\<bar> \<le> 1 / 2" by linarith
  then show ?thesis by (simp only: r_def)
qed

lemma nearest_is_round:
  fixes X :: rat
  assumes "\<bar>of_int r - X\<bar> \<le> 1 / 2" and "frac X \<noteq> 1 / 2"
  shows "r = round X"
proof -
  have "\<bar>of_int r - X\<bar> \<noteq> 1 / 2"
  proof
    assume "\<bar>of_int r - X\<bar> = 1 / 2"
    then have "X - 1 / 2 = of_int r \<or> X - 1 / 2 = of_int (r - 1)"
      by (cases "X \<le> of_int r") (simp_all add: algebra_simps)
    then obtain k :: int where "X - 1 / 2 = of_int k" by blast
    then have int: "X - 1 / 2 \<in> \<int>" by (simp only: Ints_of_int)
    have "frac X = 1 / 2"
    proof (rule frac_unique_iff [THEN iffD2], intro conjI)
      show "X - 1 / 2 \<in> \<int>" by (rule int)
      show "(0::rat) \<le> 1 / 2" by simp
      show "(1 / 2 :: rat) < 1" by simp
    qed
    with assms(2) show False by simp
  qed
  with assms(1) have "\<bar>X - of_int r\<bar> < 1 / 2" by (simp add: abs_minus_commute)
  then show ?thesis by (rule round_unique' [symmetric])
qed

section \<open>Properties of the completion percentage\<close>

text \<open>The two roundings move the percentage by at most \<open>300 / 2 ^ 53\<close>.\<close>

lemma percent_error:
  assumes "0 < t" "d \<le> t"
  shows "\<bar>fl64 (fl64 (of_nat d / of_nat t) * 100) - of_nat d / of_nat t * 100\<bar> \<le> 300 / 2 ^ 53"
proof (cases "d = 0")
  case True
  then show ?thesis by (simp add: fl64_zero)
next
  case False
  define x :: rat where "x = of_nat d / of_nat t"
  define q where "q = fl64 x"
  define A where "A = fl64 (q * 100)"
  define u :: rat where "u = 1 / 2 ^ 53"
  define xu where "xu = x * u"
  define qu where "qu = q * u"
  have x: "0 < x" using False assms by (simp add: x_def)
  have x1: "x \<le> 1" using assms by (simp add: x_def)
  have u: "0 \<le> u" by (simp add: u_def)
  have q: "0 < q" "q \<le> 2 * x" using fl64_bounds [OF x] by (simp_all add: q_def)
  have xu: "xu \<le> u" using mult_right_mono [OF x1 u] by (simp add: xu_def)
  have qu: "qu \<le> 2 * xu" using mult_right_mono [OF q(2) u] by (simp add: qu_def xu_def)
  have e1: "\<bar>q - x\<bar> \<le> xu" using fl64_error [OF x] by (simp add: q_def xu_def u_def)
  have y: "0 < q * 100" using q by simp
  have e2: "\<bar>A - q * 100\<bar> \<le> 100 * qu"
    using fl64_error [OF y] by (simp add: A_def qu_def u_def)
  from e1 e2 qu xu have "\<bar>A - x * 100\<bar> \<le> 300 * u" by linarith
  then show ?thesis by (simp add: A_def q_def x_def u_def)
qed

text \<open>
  With fewer than \<open>2 ^ 40\<close> tasks the exact percentage is either halfway between two
  integers or further from every such point than the roundings can move it.
\<close>

lemma percent_tie_or_far:
  fixes j :: int
  assumes "0 < t" "t < 2 ^ 40"
  shows "of_nat d / of_nat t * 100 = (of_int j + 1 / 2 :: rat) \<or>
         300 / 2 ^ 53 < \<bar>of_nat d / of_nat t * 100 - (of_int j + 1 / 2 :: rat)\<bar>"
proof -
  let ?X = "of_nat d / of_nat t * 100 :: rat"
  let ?N = "200 * int d - (2 * j + 1) * int t"
  have t: "(0::rat) < of_nat t" using assms by simp
  have diff: "?X - (of_int j + 1 / 2) = of_int ?N / (2 * of_nat t)"
    using t by (simp add: field_simps)
  show ?thesis
  proof (cases "?N = 0")
    case True
    with diff have "?X - (of_int j + 1 / 2) = 0" by simp
    then show ?thesis by simp
  next
    case False
    then have "1 \<le> \<bar>?N\<bar>" by simp
    then have "(1::rat) \<le> \<bar>of_int ?N\<bar>"
      by (metis of_int_1 of_int_abs of_int_le_iff)
    then have "1 / (2 * of_nat t) \<le> \<bar>of_int ?N\<bar> / (2 * of_nat t :: rat)"
      using t by (intro divide_right_mono) simp_all
    also have "\<dots> = \<bar>?X - (of_int j + 1 / 2)\<bar>"
      using t unfolding diff by (simp add: abs_divide)
    finally have bound: "1 / (2 * of_nat t) \<le> \<bar>?X - (of_int j + 1 / 2)\<bar>" .
    have "(of_nat t :: rat) < 2 ^ 40"
      using assms(2) by (metis of_nat_less_iff of_nat_numeral of_nat_power)
    then have "(2 * of_nat t :: rat) < 2 ^ 41" by simp
    then have "(1::rat) / 2 ^ 41 < 1 / (2 * of_nat t)"
      using t by (intro divide_strict_left_mono) simp_all
    moreover have "(300::rat) / 2 ^ 53 < 1 / 2 ^ 41" by simp
    ultimately have "(300::rat) / 2 ^ 53 < 1 / (2 * of_nat t)" by linarith
    with bound show ?thesis by linarith
  qed
qed

lemma percent_nearest:
  assumes "0 < t" "t < 2 ^ 40" "d \<le> t"
  shows "\<bar>of_int (Math_round (fl64 (fl64 (of_nat d / of_nat t) * 100))) -
           of_nat d / of_nat t * 100\<bar> \<le> (1 / 2 :: rat)"
  using percent_error [OF assms(1) assms(3)] percent_tie_or_far [OF assms(1) assms(2)]
  by (rule Math_round_near)

lemma percent_range:
  fixes r :: int
  assumes "0 < t" "d \<le> t"
    and "\<bar>of_int r - of_nat d / of_nat t * 100\<bar> \<le> (1 / 2 :: rat)"
  shows "0 \<le> r \<and> r \<le> 100"
proof -
  define x :: rat where "x = of_nat d / of_nat t"
  have "0 \<le> x" by (simp add: x_def)
  moreover have "x \<le> 1" using assms(1,2) by (simp add: x_def)
  moreover have "\<bar>of_int r - x * 100\<bar> \<le> 1 / 2" using assms(3) by (simp only: x_def)
  ultimately have a: "(- 1 :: rat) < of_int r" and b: "(of_int r :: rat) < 101"
    by linarith+
  from a have "(of_int (- 1) :: rat) < of_int r" by simp
  then have "- 1 < r" by (simp only: of_int_less_iff)
  moreover from b have "(of_int r :: rat) < of_int 101" by simp
  then have "r < 101" by (simp only: of_int_less_iff)
  ultimately show ?thesis by simp
qed

text \<open>The percentage of the spec in integer arithmetic.\<close>

lemma round_percent:
  assumes "0 < t"
  shows "round (of_nat d / of_nat t * 100 :: rat) = int ((200 * d + t) div (2 * t))"
proof -
  have "(of_nat d / of_nat t * 100 + 1 / 2 :: rat) = of_nat (200 * d + t) / of_nat (2 * t)"
    using assms by (simp add: field_simps)
  then have "round (of_nat d / of_nat t * 100 :: rat) =
      \<lfloor>(of_nat (200 * d + t) / of_nat (2 * t) :: rat)\<rfloor>"
    unfolding round_def by (rule arg_cong)
  also have "\<dots> = int ((200 * d + t) div (2 * t))"
    by (rule floor_divide_of_nat_eq)
  finally show ?thesis .
qed

lemma completion_spec_int:
  "completion_spec d n i =
     (if d + n + i = 0 then 0 else int ((200 * d + (d + n + i)) div (2 * (d + n + i))))"
proof (cases "d + n + i = 0")
  case True
  then show ?thesis by (simp add: completion_spec_def)
next
  case False
  then have "0 < d + n + i" by simp
  from round_percent [OF this] False show ?thesis
    by (simp only: completion_spec_def if_False)
qed

lemma getCompletionPercentage_falsy:
  "falsyId projectId \<Longrightarrow> getCompletionPercentage taskStatusCounts projectId = Num 0"
  by (simp add: getCompletionPercentage_def)

lemma getCompletionPercentage_unrecorded:
  "pid \<noteq> 0 \<Longrightarrow> taskStatusCounts pid = None \<Longrightarrow>
   getCompletionPercentage taskStatusCounts (Some pid) = Num 0"
  by (simp add: getCompletionPercentage_def emptyCounts_def fl64_zero)

lemma getCompletionPercentage_no_tasks:
  "pid \<noteq> 0 \<Longrightarrow> taskStatusCounts pid = Some c \<Longrightarrow>
   orZero (done_count c) + orZero (not_started_count c) + orZero (in_progress_count c) = 0 \<Longrightarrow>
   getCompletionPercentage taskStatusCounts (Some pid) = Num 0"
  by (simp add: getCompletionPercentage_def fl64_zero)

lemma getCompletionPercentage_recorded:
  assumes "pid \<noteq> 0" "taskStatusCounts pid = Some c" "done_count c = Some d"
    and t: "t = d + orZero (not_started_count c) + orZero (in_progress_count c)"
    and "0 < t" "t < 2 ^ 40"
  shows "getCompletionPercentage taskStatusCounts (Some pid) =
         Num (Math_round (fl64 (fl64 (of_nat d / of_nat t) * 100)))"
proof -
  have "(2::nat) ^ 40 \<le> 2 ^ 53" by simp
  with assms(6) have "d + orZero (not_started_count c) + orZero (in_progress_count c) < 2 ^ 53"
    unfolding t by linarith
  then have total: "fl64 (fl64 (of_nat d + of_nat (orZero (not_started_count c))) +
      of_nat (orZero (in_progress_count c))) = of_nat t"
    unfolding t by (rule fl64_sum)
  have "(of_nat t :: rat) \<noteq> 0" using assms(5) by simp
  with assms(1-3) total show ?thesis
    by (simp add: getCompletionPercentage_def Let_def)
qed

text \<open>
  A record that has tasks but no \<^verbatim>\<open>done\<close> field: the total is computed with
  \<^verbatim>\<open>done || 0\<close>, the quotient with \<^verbatim>\<open>done\<close> itself, and the result is NaN.
\<close>

lemma getCompletionPercentage_missing_done:
  "getCompletionPercentage
     [1 \<mapsto> \<lparr>done_count = None, not_started_count = Some 2, in_progress_count = None\<rparr>]
     (Some 1) = NaN"
proof -
  have "fl64 (fl64 (of_nat 0 + of_nat 2) + of_nat 0) = of_nat (0 + 2 + 0)"
    by (rule fl64_sum) simp
  then have "fl64 (fl64 2 + 0) = 2" by simp
  then show ?thesis by (simp add: getCompletionPercentage_def)
qed

text \<open>
  At 23 done tasks out of 40 the exact percentage is 57.5, halfway between two integers.
  The quotient is rounded to a value below 0.575, the product to a value below 57.5, and
  the result is 57, where rounding the exact percentage gives 58.
\<close>

lemma getCompletionPercentage_tie:
  "getCompletionPercentage
     [1 \<mapsto> \<lparr>done_count = Some 23, not_started_count = Some 10, in_progress_count = Some 7\<rparr>]
     (Some 1) = Num 57 \<and>
   completion_spec 23 10 7 = 58"
proof -
  let ?c = "\<lparr>done_count = Some 23, not_started_count = Some 10, in_progress_count = Some 7\<rparr>"
  have "getCompletionPercentage [1 \<mapsto> ?c] (Some 1) =
        Num (Math_round (fl64 (fl64 (of_nat 23 / of_nat 40) * 100)))"
    by (rule getCompletionPercentage_recorded
          [where pid = 1 and taskStatusCounts = "[1 \<mapsto> ?c]" and c = ?c and d = 23
             and t = 40])
       simp_all
  moreover have "Math_round (fl64 (fl64 (of_nat 23 / of_nat 40) * 100)) = 57"
    by code_simp
  moreover have "completion_spec 23 10 7 = 58"
    by (simp add: completion_spec_int)
  ultimately show ?thesis by simp
qed

text \<open>
  C1, as the code has it. For an id that is \<^verbatim>\<open>undefined\<close> or 0 the result is 0
  whatever is recorded. For any other id the result is 0 when nothing is recorded for
  the id or when the recorded counts add up to 0. When a \<^verbatim>\<open>done\<close> count is recorded
  and the total of the three counts, an absent count being 0, is positive and below
  \<open>2 ^ 40\<close>, the result is an integer from 0 to 100 nearest to the done tasks divided
  by the total as a percentage; it is that percentage rounded to the nearest integer
  unless the percentage is exactly halfway between two integers, where it is one of the
  two.
\<close>

theorem getCompletionPercentage_spec:
  "getCompletionPercentage taskStatusCounts None = Num 0 \<and>
   getCompletionPercentage taskStatusCounts (Some 0) = Num 0 \<and>
   (pid \<noteq> 0 \<and> taskStatusCounts pid = None \<longrightarrow>
      getCompletionPercentage taskStatusCounts (Some pid) = Num 0) \<and>
   (pid \<noteq> 0 \<and> taskStatusCounts pid = Some c \<and>
    orZero (done_count c) + orZero (not_started_count c) + orZero (in_progress_count c) = 0 \<longrightarrow>
      getCompletionPercentage taskStatusCounts (Some pid) = Num 0) \<and>
   (pid \<noteq> 0 \<and> taskStatusCounts pid = Some c \<and> done_count c = Some d \<and>
    t = d + orZero (not_started_count c) + orZero (in_progress_count c) \<and>
    0 < t \<and> t < 2 ^ 40 \<longrightarrow>
      (\<exists>r. getCompletionPercentage taskStatusCounts (Some pid) = Num r \<and>
           0 \<le> r \<and> r \<le> 100 \<and>
           \<bar>of_int r - of_nat d / of_nat t * 100\<bar> \<le> (1 / 2 :: rat) \<and>
           (frac (of_nat d / of_nat t * 100 :: rat) \<noteq> 1 / 2 \<longrightarrow>
              r = completion_spec d (orZero (not_started_count c))
                    (orZero (in_progress_count c)))))"
proof -
  have recorded: "pid \<noteq> 0 \<and> taskStatusCounts pid = Some c \<and> done_count c = Some d \<and>
    t = d + orZero (not_started_count c) + orZero (in_progress_count c) \<and>
    0 < t \<and> t < 2 ^ 40 \<longrightarrow>
      (\<exists>r. getCompletionPercentage taskStatusCounts (Some pid) = Num r \<and>
           0 \<le> r \<and> r \<le> 100 \<and>
           \<bar>of_int r - of_nat d / of_nat t * 100\<bar> \<le> (1 / 2 :: rat) \<and>
           (frac (of_nat d / of_nat t * 100 :: rat) \<noteq> 1 / 2 \<longrightarrow>
              r = completion_spec d (orZero (not_started_count c))
                    (orZero (in_progress_count c))))"
  proof
    assume a: "pid \<noteq> 0 \<and> taskStatusCounts pid = Some c \<and> done_count c = Some d \<and>
      t = d + orZero (not_started_count c) + orZero (in_progress_count c) \<and>
      0 < t \<and> t < 2 ^ 40"
    define r where "r = Math_round (fl64 (fl64 (of_nat d / of_nat t) * 100))"
    from a have t: "t = d + orZero (not_started_count c) + orZero (in_progress_count c)"
      and pos: "0 < t" and small: "t < 2 ^ 40" by blast+
    from t have le: "d \<le> t" by simp
    from a have h: "pid \<noteq> 0" "taskStatusCounts pid = Some c" "done_count c = Some d"
      by blast+
    have result: "getCompletionPercentage taskStatusCounts (Some pid) = Num r"
      unfolding r_def
      by (rule getCompletionPercentage_recorded
            [where pid = pid and taskStatusCounts = taskStatusCounts and c = c and d = d
               and t = t, OF h t pos small])
    have nearest: "\<bar>of_int r - of_nat d / of_nat t * 100\<bar> \<le> (1 / 2 :: rat)"
      unfolding r_def using pos small le by (rule percent_nearest)
    have range: "0 \<le> r \<and> r \<le> 100"
      using pos le nearest by (rule percent_range)
    have spec: "completion_spec d (orZero (not_started_count c)) (orZero (in_progress_count c)) =
        round (of_nat d / of_nat t * 100 :: rat)"
      using pos unfolding completion_spec_def t by simp
    have exact: "frac (of_nat d / of_nat t * 100 :: rat) \<noteq> 1 / 2 \<longrightarrow>
        r = completion_spec d (orZero (not_started_count c)) (orZero (in_progress_count c))"
      unfolding spec using nearest by (auto intro: nearest_is_round)
    from result nearest range exact show "\<exists>r. getCompletionPercentage taskStatusCounts (Some pid) = Num r \<and>
           0 \<le> r \<and> r \<le> 100 \<and>
           \<bar>of_int r - of_nat d / of_nat t * 100\<bar> \<le> (1 / 2 :: rat) \<and>
           (frac (of_nat d / of_nat t * 100 :: rat) \<noteq> 1 / 2 \<longrightarrow>
              r = completion_spec d (orZero (not_started_count c))
                    (orZero (in_progress_count c)))"
      by blast
  qed
  from recorded
    getCompletionPercentage_falsy [of None taskStatusCounts]
    getCompletionPercentage_falsy [of "Some 0" taskStatusCounts]
    getCompletionPercentage_unrecorded [of pid taskStatusCounts]
    getCompletionPercentage_no_tasks [of pid taskStatusCounts c]
  show ?thesis by simp
qed

theorem getCompletionPercentage_spec_witness:
  "(3::nat) \<noteq> 0 \<and> (0::nat) < 3 \<and> (3::nat) < 2 ^ 40 \<and>
   frac (of_nat 1 / of_nat 3 * 100 :: rat) \<noteq> 1 / 2 \<and>
   getCompletionPercentage
     [3 \<mapsto> \<lparr>done_count = Some 1, not_started_count = Some 2, in_progress_count = None\<rparr>]
     (Some 3) = Num 33 \<and>
   getCompletionPercentage
     [3 \<mapsto> \<lparr>done_count = Some 1, not_started_count = Some 2, in_progress_count = None\<rparr>]
     (Some 4) = Num 0 \<and>
   getCompletionPercentage
     [1 \<mapsto> \<lparr>done_count = Some 23, not_started_count = Some 10, in_progress_count = Some 7\<rparr>]
     (Some 1) = Num 57"
proof -
  let ?c = "\<lparr>done_count = Some 1, not_started_count = Some 2, in_progress_count = None\<rparr>"
  have spec: "completion_spec 1 2 0 = 33"
    by (simp add: completion_spec_int)
  have no_tie: "frac (of_nat 1 / of_nat 3 * 100 :: rat) \<noteq> 1 / 2"
    by code_simp
  note recorded = getCompletionPercentage_spec
    [of "[3 \<mapsto> ?c]" 3 ?c 1 3, THEN conjunct2, THEN conjunct2, THEN conjunct2, THEN conjunct2,
     rule_format]
  have "\<exists>r. getCompletionPercentage [3 \<mapsto> ?c] (Some 3) = Num r \<and>
           0 \<le> r \<and> r \<le> 100 \<and>
           \<bar>of_int r - of_nat 1 / of_nat 3 * 100\<bar> \<le> (1 / 2 :: rat) \<and>
           (frac (of_nat 1 / of_nat 3 * 100 :: rat) \<noteq> 1 / 2 \<longrightarrow>
              r = completion_spec 1 (orZero (not_started_count ?c)) (orZero (in_progress_count ?c)))"
    by (rule recorded) simp
  then obtain r where "getCompletionPercentage [3 \<mapsto> ?c] (Some 3) = Num r"
    and "frac (of_nat 1 / of_nat 3 * 100 :: rat) \<noteq> 1 / 2 \<longrightarrow> r = completion_spec 1 2 0"
    by auto
  with no_tie spec have r3: "getCompletionPercentage [3 \<mapsto> ?c] (Some 3) = Num 33" by simp
  note unrecorded = getCompletionPercentage_spec
    [of "[3 \<mapsto> ?c]" 4 ?c 1 3, THEN conjunct2, THEN conjunct2, THEN conjunct1, rule_format]
  have r4: "getCompletionPercentage [3 \<mapsto> ?c] (Some 4) = Num 0"
    by (rule unrecorded) simp
  from no_tie r3 r4 getCompletionPercentage_tie show ?thesis by simp
qed

text \<open>
  C1 as stated fails at the project id 0: with one done task out of one recorded under
  that id, the claimed percentage is 100 and the function returns 0.
\<close>

theorem getCompletionPercentage_id_zero_counterexample:
  "getCompletionPercentage
     [0 \<mapsto> \<lparr>done_count = Some 1, not_started_count = Some 0, in_progress_count = Some 0\<rparr>]
     (Some 0) = Num 0 \<and>
   completion_spec 1 0 0 = 100 \<and>
   getCompletionPercentage
     [0 \<mapsto> \<lparr>done_count = Some 1, not_started_count = Some 0, in_progress_count = Some 0\<rparr>]
     (Some 0) \<noteq> Num (completion_spec 1 0 0)"
  by (simp add: getCompletionPercentage_def completion_spec_int)

section \<open>Properties of handleSaveProject\<close>

lemma handleSaveProject_calls:
  "filter isBackendCall (fst (handleSaveProject backend project)) = [saveCall project]"
  by (cases "backend (saveCall project)")
     (auto simp: handleSaveProject_def saveCall_def)

lemma handleSaveProject_resolved:
  "backend (saveCall project) = Resolved \<Longrightarrow>
   handleSaveProject backend project =
     ([saveCall project, SetIsProjectModalOpen False, Mutate], Resolved)"
  by (simp add: handleSaveProject_def)

lemma handleSaveProject_rejected:
  "backend (saveCall project) = Rejected \<Longrightarrow>
   handleSaveProject backend project = ([saveCall project], Rejected)"
  by (simp add: handleSaveProject_def)

text \<open>
  C2, as the code has it. Exactly one backend operation is invoked, never both:
  \<^verbatim>\<open>updateProject(project.id, project)\<close> when the id is a number other than 0, and
  \<^verbatim>\<open>createProject(project)\<close> when the id is absent or 0. When the operation resolves, the
  dialog is closed and the list refetched, in this order and after the operation; when it
  rejects, the handler ends with the rejection and does neither.
\<close>

theorem handleSaveProject_one_operation:
  "(id_P project = None \<or> id_P project = Some 0 \<longrightarrow>
      filter isBackendCall (fst (handleSaveProject backend project)) = [CreateProject project]) \<and>
   (id_P project = Some i \<and> i \<noteq> 0 \<longrightarrow>
      filter isBackendCall (fst (handleSaveProject backend project)) = [UpdateProject i project]) \<and>
   (\<exists>call. isBackendCall call \<and>
      handleSaveProject backend project =
        (case backend call of
           Resolved \<Rightarrow> ([call, SetIsProjectModalOpen False, Mutate], Resolved)
         | Rejected \<Rightarrow> ([call], Rejected)))"
proof -
  have create: "id_P project = None \<or> id_P project = Some 0 \<longrightarrow>
      filter isBackendCall (fst (handleSaveProject backend project)) = [CreateProject project]"
    by (auto simp: handleSaveProject_calls saveCall_def)
  have update: "id_P project = Some i \<and> i \<noteq> 0 \<longrightarrow>
      filter isBackendCall (fst (handleSaveProject backend project)) = [UpdateProject i project]"
    by (auto simp: handleSaveProject_calls saveCall_def)
  have "isBackendCall (saveCall project)"
    by (simp add: saveCall_def)
  moreover have "handleSaveProject backend project =
        (case backend (saveCall project) of
           Resolved \<Rightarrow> ([saveCall project, SetIsProjectModalOpen False, Mutate], Resolved)
         | Rejected \<Rightarrow> ([saveCall project], Rejected))"
    by (simp add: handleSaveProject_def split: outcome.splits)
  ultimately have trace: "\<exists>call. isBackendCall call \<and>
      handleSaveProject backend project =
        (case backend call of
           Resolved \<Rightarrow> ([call, SetIsProjectModalOpen False, Mutate], Resolved)
         | Rejected \<Rightarrow> ([call], Rejected))"
    by blast
  from create update trace show ?thesis by blast
qed

theorem handleSaveProject_one_operation_witness:
  "id_P (emptyFormData\<lparr>id_P := Some 7\<rparr>) = Some 7 \<and> (7::nat) \<noteq> 0 \<and>
   filter isBackendCall
     (fst (handleSaveProject (\<lambda>call. Resolved) (emptyFormData\<lparr>id_P := Some 7\<rparr>))) =
     [UpdateProject 7 (emptyFormData\<lparr>id_P := Some 7\<rparr>)] \<and>
   id_P emptyFormData = None \<and>
   filter isBackendCall (fst (handleSaveProject (\<lambda>call. Resolved) emptyFormData)) =
     [CreateProject emptyFormData]"
proof -
  have ids: "id_P (emptyFormData\<lparr>id_P := Some 7\<rparr>) = Some 7" "id_P emptyFormData = None"
    by (simp_all add: emptyFormData_def)
  from handleSaveProject_one_operation [of "emptyFormData\<lparr>id_P := Some 7\<rparr>" "\<lambda>call. Resolved" 7]
    handleSaveProject_one_operation [of emptyFormData "\<lambda>call. Resolved" 7] ids
  show ?thesis by simp
qed

text \<open>
  C2 as stated fails in two places. A project whose id is 0 has an id, and it is created,
  not updated. And when the backend operation of a project with the id 7 rejects, the
  dialog is not closed and the list is not refetched.
\<close>

theorem handleSaveProject_counterexample:
  "handleSaveProject (\<lambda>call. Resolved) (emptyFormData\<lparr>id_P := Some 0\<rparr>) =
     ([CreateProject (emptyFormData\<lparr>id_P := Some 0\<rparr>), SetIsProjectModalOpen False, Mutate],
      Resolved) \<and>
   handleSaveProject (\<lambda>call. Rejected) (emptyFormData\<lparr>id_P := Some 7\<rparr>) =
     ([UpdateProject 7 (emptyFormData\<lparr>id_P := Some 7\<rparr>)], Rejected)"
  by (simp add: handleSaveProject_def saveCall_def emptyFormData_def)

section \<open>Properties of the project detail view\<close>

lemma fetchProject_not_loading: "loading_D (fetchProject result st) = False"
  by (simp add: fetchProject_def
      split: fetch_result.splits json_body.splits property_read.splits)

lemma render_not_loading: "loading_D st = False \<Longrightarrow> render st \<noteq> LoadingView"
  by (simp add: render_def split: option.splits)

lemma render_error: "loading_D st = False \<Longrightarrow> error_D st = Some m \<Longrightarrow> m \<noteq> [] \<Longrightarrow>
  render st = ErrorView m"
  by (simp add: render_def)

lemma fetchProject_error_body:
  "error_D (fetchProject (Response False (Json (Gives err) data)) st) =
     Some (orElse err ''Failed to fetch project.'')"
  by (simp add: fetchProject_def)

text \<open>
  C5, as the code has it. For a response that is not ok and whose body parses to a value
  other than \<^verbatim>\<open>null\<close>, the message stored is the \<^verbatim>\<open>error\<close> field of the body when
  that is a string that is not empty, the conversion of the field to a string when it is
  a truthy value of another type, and "Failed to fetch project." when the field is
  absent or falsy. When the body is \<^verbatim>\<open>null\<close> or not JSON, or the network fails, the
  message stored is the one of the exception. Whatever the fetch gives, the loading flag
  is false after the call has settled, the loading view is not shown, and a stored
  message that is not empty is shown in the error view.
\<close>

theorem fetchProject_error_message:
  "loading_D (fetchProject result st) = False \<and>
   render (fetchProject result st) \<noteq> LoadingView \<and>
   (error_D (fetchProject result st) = Some m \<and> m \<noteq> [] \<longrightarrow>
      render (fetchProject result st) = ErrorView m) \<and>
   (e \<noteq> [] \<longrightarrow>
      error_D (fetchProject (Response False (Json (Gives (StringValue e)) data)) st) = Some e \<and>
      error_D (fetchProject (Response False (Json (Gives (OtherValue True e)) data)) st) =
        Some e) \<and>
   error_D (fetchProject (Response False (Json (Gives (StringValue [])) data)) st) =
     Some ''Failed to fetch project.'' \<and>
   error_D (fetchProject (Response False (Json (Gives (OtherValue False e)) data)) st) =
     Some ''Failed to fetch project.'' \<and>
   error_D (fetchProject (Response False (Json (Gives Absent) data)) st) =
     Some ''Failed to fetch project.'' \<and>
   error_D (fetchProject (Response False (Json (Raises message_of) data)) st) =
     Some (message_of ''error'') \<and>
   error_D (fetchProject (Response False (NotJson message)) st) = Some message \<and>
   error_D (fetchProject (NetworkError message) st) = Some message"
proof -
  have settled: "loading_D (fetchProject result st) = False"
    by (rule fetchProject_not_loading)
  have view: "render (fetchProject result st) \<noteq> LoadingView"
    using settled by (rule render_not_loading)
  have shown: "error_D (fetchProject result st) = Some m \<and> m \<noteq> [] \<longrightarrow>
      render (fetchProject result st) = ErrorView m"
    using render_error [OF settled] by blast
  have present: "e \<noteq> [] \<longrightarrow>
      error_D (fetchProject (Response False (Json (Gives (StringValue e)) data)) st) = Some e \<and>
      error_D (fetchProject (Response False (Json (Gives (OtherValue True e)) data)) st) =
        Some e"
    by (simp add: fetchProject_error_body)
  have empty: "error_D (fetchProject (Response False (Json (Gives (StringValue [])) data)) st) =
     Some ''Failed to fetch project.''"
    by (simp add: fetchProject_error_body)
  have falsy: "error_D (fetchProject (Response False (Json (Gives (OtherValue False e)) data)) st) =
     Some ''Failed to fetch project.''"
    by (simp add: fetchProject_error_body)
  have absent: "error_D (fetchProject (Response False (Json (Gives Absent) data)) st) =
     Some ''Failed to fetch project.''"
    by (simp add: fetchProject_error_body)
  have raised:
    "error_D (fetchProject (Response False (Json (Raises message_of) data)) st) =
       Some (message_of ''error'')"
    "error_D (fetchProject (Response False (NotJson message)) st) = Some message"
    "error_D (fetchProject (NetworkError message) st) = Some message"
    by (simp_all add: fetchProject_def)
  from settled view shown present empty falsy absent raised
  show ?thesis by blast
qed

theorem fetchProject_error_message_witness:
  "''Project not found'' \<noteq> [] \<and>
   error_D
     (fetchProject (Response False (Json (Gives (StringValue ''Project not found'')) emptyFormData))
        \<lparr>project_D = None, tasks_D = [], loading_D = True, error_D = None\<rparr>) =
     Some ''Project not found'' \<and>
   render
     (fetchProject (Response False (Json (Gives (StringValue ''Project not found'')) emptyFormData))
        \<lparr>project_D = None, tasks_D = [], loading_D = True, error_D = None\<rparr>) =
     ErrorView ''Project not found''"
proof -
  let ?st = "\<lparr>project_D = None, tasks_D = [], loading_D = True, error_D = None\<rparr>"
  let ?result = "Response False (Json (Gives (StringValue ''Project not found'')) emptyFormData)"
  have ne: "''Project not found'' \<noteq> []" by simp
  note th = fetchProject_error_message
    [where result = ?result and st = ?st and m = "''Project not found''"
       and e = "''Project not found''" and data = emptyFormData]
  note stored = th [THEN conjunct2, THEN conjunct2, THEN conjunct2, THEN conjunct1, rule_format,
    THEN conjunct1]
  note shown = th [THEN conjunct2, THEN conjunct2, THEN conjunct1, rule_format]
  have s: "error_D (fetchProject ?result ?st) = Some ''Project not found''"
    using ne by (rule stored)
  have v: "render (fetchProject ?result ?st) = ErrorView ''Project not found''"
    using s ne by (intro shown conjI)
  from ne s v show ?thesis by (intro conjI)
qed

text \<open>
  C5 as stated fails for a response that is not ok and whose body is not JSON, such as
  the HTML page of a gateway: the message shown is the one of the parser and not
  "Failed to fetch project.". It fails for a body that is \<^verbatim>\<open>null\<close>, where the message
  is the one of the TypeError. It also fails for a body whose \<^verbatim>\<open>error\<close> field is
  present and empty: the message is "Failed to fetch project." and not the field.
\<close>

theorem fetchProject_error_message_counterexample:
  "error_D
     (fetchProject (Response False (NotJson ''Unexpected token < in JSON at position 0''))
        \<lparr>project_D = None, tasks_D = [], loading_D = True, error_D = None\<rparr>) =
     Some ''Unexpected token < in JSON at position 0'' \<and>
   render
     (fetchProject (Response False (NotJson ''Unexpected token < in JSON at position 0''))
        \<lparr>project_D = None, tasks_D = [], loading_D = True, error_D = None\<rparr>) \<noteq>
     ErrorView ''Failed to fetch project.'' \<and>
   error_D
     (fetchProject
        (Response False
           (Json (Raises (\<lambda>name. ''Cannot read properties of null'')) emptyFormData))
        \<lparr>project_D = None, tasks_D = [], loading_D = True, error_D = None\<rparr>) =
     Some ''Cannot read properties of null'' \<and>
   error_D
     (fetchProject (Response False (Json (Gives (StringValue [])) emptyFormData))
        \<lparr>project_D = None, tasks_D = [], loading_D = True, error_D = None\<rparr>) \<noteq> Some []"
  by (simp add: fetchProject_def render_def)

lemma handleTaskCreate_no_id:
  "project_D rendered = None \<or> (\<exists>p. project_D rendered = Some p \<and> falsyId (id_P p)) \<Longrightarrow>
   handleTaskCreate fetch rendered taskData current =
     ([ConsoleError ''Project ID is missing''], current)"
  by (auto simp: handleTaskCreate_def)

lemma handleTaskCreate_request:
  assumes "project_D rendered = Some p" "id_P p = Some i" "i \<noteq> 0"
  shows "filter isFetch (fst (handleTaskCreate fetch rendered taskData current)) =
         [Fetch (taskRequest taskData i)]"
  using assms
  by (simp add: handleTaskCreate_def Let_def split: fetch_result.splits json_body.splits)

lemma handleTaskCreate_state:
  assumes "project_D rendered = Some p" "id_P p = Some i" "i \<noteq> 0"
  shows "snd (handleTaskCreate fetch rendered taskData current) =
         (case fetch (taskRequest taskData i) of
            Response True (Json props newTask) \<Rightarrow>
              current\<lparr>tasks_D := tasks_D rendered @ [newTask]\<rparr>
          | _ \<Rightarrow> current)"
  using assms
  by (simp add: handleTaskCreate_def Let_def split: fetch_result.splits json_body.splits bool.splits)

text \<open>
  The list that the handler writes is the one of its render, extended. Two creations
  started from the same render, the second before the response to the first has been
  rendered: when the second response arrives, the task of the first is in the list, and
  the handler writes a list without it.
\<close>

lemma handleTaskCreate_lost_task:
  "tasks_D
     (snd (handleTaskCreate (\<lambda>req. Response True (Json (Gives Absent) (taskNamed 3 ''B'')))
        (loadedDetails (emptyFormData\<lparr>id_P := Some 4\<rparr>) [taskNamed 1 ''Measure''])
        [''name'' \<mapsto> Str (js ''B'')]
        (snd (handleTaskCreate (\<lambda>req. Response True (Json (Gives Absent) (taskNamed 2 ''A'')))
           (loadedDetails (emptyFormData\<lparr>id_P := Some 4\<rparr>) [taskNamed 1 ''Measure''])
           [''name'' \<mapsto> Str (js ''A'')]
           (loadedDetails (emptyFormData\<lparr>id_P := Some 4\<rparr>) [taskNamed 1 ''Measure'']))))) =
   [taskNamed 1 ''Measure'', taskNamed 3 ''B'']"
  by (simp add: handleTaskCreate_def loadedDetails_def)

text \<open>
  C3, as the code has it. When the render that created the handler has no project, or a
  project whose id is absent or 0, no request is issued and the state is unchanged.
  Otherwise exactly one request is issued, a POST to \<^verbatim>\<open>/api/task\<close> whose body is the
  task data with \<^verbatim>\<open>project_id\<close> set to the id of the project. When the response is ok
  and its body is JSON, and the tasks have not changed since that render, the returned
  task is appended at the end of the tasks and nothing else in the state changes; on a
  response that is not ok, on a body that is not JSON and on a network failure the state
  is unchanged.
\<close>

theorem handleTaskCreate_cases:
  "(project_D rendered = None \<or>
    (\<exists>q. project_D rendered = Some q \<and> (id_P q = None \<or> id_P q = Some 0)) \<longrightarrow>
      filter isFetch (fst (handleTaskCreate fetch rendered taskData current)) = [] \<and>
      snd (handleTaskCreate fetch rendered taskData current) = current) \<and>
   (project_D rendered = Some p \<and> id_P p = Some i \<and> i \<noteq> 0 \<longrightarrow>
      filter isFetch (fst (handleTaskCreate fetch rendered taskData current)) =
        [Fetch \<lparr>url = ''/api/task'', http_method = ''POST'',
                body = Some (taskData(''project_id'' \<mapsto> Number i))\<rparr>] \<and>
      (fetch \<lparr>url = ''/api/task'', http_method = ''POST'',
              body = Some (taskData(''project_id'' \<mapsto> Number i))\<rparr> =
         Response True (Json props newTask) \<and> tasks_D current = tasks_D rendered \<longrightarrow>
         snd (handleTaskCreate fetch rendered taskData current) =
           current\<lparr>tasks_D := tasks_D current @ [newTask]\<rparr>) \<and>
      (fetch \<lparr>url = ''/api/task'', http_method = ''POST'',
              body = Some (taskData(''project_id'' \<mapsto> Number i))\<rparr> \<in>
         {NetworkError message, Response ok (NotJson message), Response False json} \<longrightarrow>
         snd (handleTaskCreate fetch rendered taskData current) = current))"
proof -
  have none: "project_D rendered = None \<or>
      (\<exists>q. project_D rendered = Some q \<and> (id_P q = None \<or> id_P q = Some 0)) \<longrightarrow>
      filter isFetch (fst (handleTaskCreate fetch rendered taskData current)) = [] \<and>
      snd (handleTaskCreate fetch rendered taskData current) = current"
  proof
    assume "project_D rendered = None \<or>
      (\<exists>q. project_D rendered = Some q \<and> (id_P q = None \<or> id_P q = Some 0))"
    then have "project_D rendered = None \<or>
        (\<exists>q. project_D rendered = Some q \<and> falsyId (id_P q))"
      by auto
    then show "filter isFetch (fst (handleTaskCreate fetch rendered taskData current)) = [] \<and>
      snd (handleTaskCreate fetch rendered taskData current) = current"
      by (simp add: handleTaskCreate_no_id)
  qed
  have some: "project_D rendered = Some p \<and> id_P p = Some i \<and> i \<noteq> 0 \<longrightarrow>
      filter isFetch (fst (handleTaskCreate fetch rendered taskData current)) =
        [Fetch (taskRequest taskData i)] \<and>
      (fetch (taskRequest taskData i) = Response True (Json props newTask) \<and>
       tasks_D current = tasks_D rendered \<longrightarrow>
         snd (handleTaskCreate fetch rendered taskData current) =
           current\<lparr>tasks_D := tasks_D current @ [newTask]\<rparr>) \<and>
      (fetch (taskRequest taskData i) \<in>
         {NetworkError message, Response ok (NotJson message), Response False json} \<longrightarrow>
         snd (handleTaskCreate fetch rendered taskData current) = current)"
  proof
    assume a: "project_D rendered = Some p \<and> id_P p = Some i \<and> i \<noteq> 0"
    then have req: "filter isFetch (fst (handleTaskCreate fetch rendered taskData current)) =
        [Fetch (taskRequest taskData i)]"
      by (simp add: handleTaskCreate_request)
    from a have state: "snd (handleTaskCreate fetch rendered taskData current) =
         (case fetch (taskRequest taskData i) of
            Response True (Json props newTask) \<Rightarrow>
              current\<lparr>tasks_D := tasks_D rendered @ [newTask]\<rparr>
          | _ \<Rightarrow> current)"
      by (simp add: handleTaskCreate_state)
    have ok: "fetch (taskRequest taskData i) = Response True (Json props newTask) \<and>
       tasks_D current = tasks_D rendered \<longrightarrow>
         snd (handleTaskCreate fetch rendered taskData current) =
           current\<lparr>tasks_D := tasks_D current @ [newTask]\<rparr>"
      using state by simp
    have failed: "fetch (taskRequest taskData i) \<in>
         {NetworkError message, Response ok (NotJson message), Response False json} \<longrightarrow>
         snd (handleTaskCreate fetch rendered taskData current) = current"
      using state by (auto split: json_body.splits bool.splits)
    from req ok failed
    show "filter isFetch (fst (handleTaskCreate fetch rendered taskData current)) =
        [Fetch (taskRequest taskData i)] \<and>
      (fetch (taskRequest taskData i) = Response True (Json props newTask) \<and>
       tasks_D current = tasks_D rendered \<longrightarrow>
         snd (handleTaskCreate fetch rendered taskData current) =
           current\<lparr>tasks_D := tasks_D current @ [newTask]\<rparr>) \<and>
      (fetch (taskRequest taskData i) \<in>
         {NetworkError message, Response ok (NotJson message), Response False json} \<longrightarrow>
         snd (handleTaskCreate fetch rendered taskData current) = current)"
      by blast
  qed
  from none some show ?thesis unfolding taskRequest_def by blast
qed

theorem handleTaskCreate_cases_witness:
  "project_D (loadedDetails (emptyFormData\<lparr>id_P := Some 4\<rparr>) [taskNamed 1 ''Measure'']) =
     Some (emptyFormData\<lparr>id_P := Some 4\<rparr>) \<and>
   id_P (emptyFormData\<lparr>id_P := Some 4\<rparr>) = Some 4 \<and> (4::nat) \<noteq> 0 \<and>
   filter isFetch
     (fst (handleTaskCreate
        (\<lambda>req. Response True (Json (Gives Absent) (taskNamed 2 ''Buy paint'')))
        (loadedDetails (emptyFormData\<lparr>id_P := Some 4\<rparr>) [taskNamed 1 ''Measure''])
        [''name'' \<mapsto> Str (js ''Buy paint'')]
        (loadedDetails (emptyFormData\<lparr>id_P := Some 4\<rparr>) [taskNamed 1 ''Measure'']))) =
     [Fetch \<lparr>url = ''/api/task'', http_method = ''POST'',
             body = Some [''name'' \<mapsto> Str (js ''Buy paint''), ''project_id'' \<mapsto> Number 4]\<rparr>] \<and>
   tasks_D
     (snd (handleTaskCreate
        (\<lambda>req. Response True (Json (Gives Absent) (taskNamed 2 ''Buy paint'')))
        (loadedDetails (emptyFormData\<lparr>id_P := Some 4\<rparr>) [taskNamed 1 ''Measure''])
        [''name'' \<mapsto> Str (js ''Buy paint'')]
        (loadedDetails (emptyFormData\<lparr>id_P := Some 4\<rparr>) [taskNamed 1 ''Measure'']))) =
     [taskNamed 1 ''Measure'', taskNamed 2 ''Buy paint'']"
proof -
  let ?p = "emptyFormData\<lparr>id_P := Some 4\<rparr>"
  let ?st = "loadedDetails ?p [taskNamed 1 ''Measure'']"
  let ?fetch = "\<lambda>req :: request. Response True (Json (Gives Absent) (taskNamed 2 ''Buy paint''))"
  let ?td = "[''name'' \<mapsto> Str (js ''Buy paint'')]"
  have hyps: "project_D ?st = Some ?p \<and> id_P ?p = Some 4 \<and> (4::nat) \<noteq> 0"
    by (simp add: loadedDetails_def)
  have old: "tasks_D ?st = [taskNamed 1 ''Measure'']"
    by (simp add: loadedDetails_def)
  note th = handleTaskCreate_cases
    [where rendered = ?st and current = ?st and p = ?p and i = 4 and fetch = ?fetch
       and taskData = ?td and props = "Gives Absent"
       and newTask = "taskNamed 2 ''Buy paint''", THEN conjunct2, rule_format, OF hyps]
  have req: "filter isFetch (fst (handleTaskCreate ?fetch ?st ?td ?st)) =
     [Fetch \<lparr>url = ''/api/task'', http_method = ''POST'',
             body = Some [''name'' \<mapsto> Str (js ''Buy paint''), ''project_id'' \<mapsto> Number 4]\<rparr>]"
    using th [THEN conjunct1] .
  have "snd (handleTaskCreate ?fetch ?st ?td ?st) =
      ?st\<lparr>tasks_D := tasks_D ?st @ [taskNamed 2 ''Buy paint'']\<rparr>"
    by (rule th [THEN conjunct2, THEN conjunct1, rule_format]) simp
  then have new: "tasks_D (snd (handleTaskCreate ?fetch ?st ?td ?st)) =
      [taskNamed 1 ''Measure'', taskNamed 2 ''Buy paint'']"
    using old by simp
  from hyps req new show ?thesis by (intro conjI) blast+
qed

text \<open>
  C3 as stated fails for a project whose id is 0: the project has an id, and no request
  is issued.
\<close>

theorem handleTaskCreate_id_zero_counterexample:
  "id_P (emptyFormData\<lparr>id_P := Some 0\<rparr>) = Some 0 \<and>
   handleTaskCreate (\<lambda>req. Response True (Json (Gives Absent) (taskNamed 2 ''Buy paint'')))
     (loadedDetails (emptyFormData\<lparr>id_P := Some 0\<rparr>) [])
     [''name'' \<mapsto> Str (js ''Buy paint'')]
     (loadedDetails (emptyFormData\<lparr>id_P := Some 0\<rparr>) []) =
   ([ConsoleError ''Project ID is missing''],
    loadedDetails (emptyFormData\<lparr>id_P := Some 0\<rparr>) [])"
  by (simp add: handleTaskCreate_def loadedDetails_def emptyFormData_def)

lemma handleTaskUpdate_no_id:
  "id_T updatedTask = None \<Longrightarrow>
   handleTaskUpdate updateTask updatedTask st =
     ([ConsoleError ''Cannot update task: Task ID is missing''], st)"
  by (simp add: handleTaskUpdate_def)

lemma handleTaskUpdate_resolved:
  "id_T updatedTask = Some i \<Longrightarrow> updateTask i updatedTask = Resolved \<Longrightarrow>
   snd (handleTaskUpdate updateTask updatedTask st) =
     st\<lparr>tasks_D := map (\<lambda>task. if id_T task = Some i then updatedTask else task) (tasks_D st)\<rparr>"
  by (simp add: handleTaskUpdate_def)

lemma handleTaskUpdate_rejected:
  "id_T updatedTask = Some i \<Longrightarrow> updateTask i updatedTask = Rejected \<Longrightarrow>
   snd (handleTaskUpdate updateTask updatedTask st) = st"
  by (simp add: handleTaskUpdate_def)

lemma handleTaskUpdate_call:
  "id_T updatedTask = Some i \<Longrightarrow>
   filter isUpdateTask (fst (handleTaskUpdate updateTask updatedTask st)) =
     [UpdateTask i updatedTask]"
  by (simp add: handleTaskUpdate_def split: outcome.splits)

text \<open>
  C7, as the code has it. For an updated task with a defined id, \<^verbatim>\<open>updateTask\<close> is
  called once. When it resolves, the tasks keep their number and order, every task whose
  id is the id of the updated task is replaced by the updated task, every other task is
  unchanged, and nothing else in the state changes. When it rejects, the state is
  unchanged. When the id of the updated task is undefined, the state is unchanged and no
  backend call is made.
\<close>

theorem handleTaskUpdate_frame:
  "(id_T updatedTask = None \<longrightarrow>
      snd (handleTaskUpdate updateTask updatedTask st) = st \<and>
      filter isUpdateTask (fst (handleTaskUpdate updateTask updatedTask st)) = []) \<and>
   (id_T updatedTask = Some i \<longrightarrow>
      filter isUpdateTask (fst (handleTaskUpdate updateTask updatedTask st)) =
        [UpdateTask i updatedTask]) \<and>
   (id_T updatedTask = Some i \<and> updateTask i updatedTask = Resolved \<longrightarrow>
      length (tasks_D (snd (handleTaskUpdate updateTask updatedTask st))) = length (tasks_D st) \<and>
      (\<forall>k < length (tasks_D st).
         tasks_D (snd (handleTaskUpdate updateTask updatedTask st)) ! k =
           (if id_T (tasks_D st ! k) = Some i then updatedTask else tasks_D st ! k)) \<and>
      project_D (snd (handleTaskUpdate updateTask updatedTask st)) = project_D st \<and>
      loading_D (snd (handleTaskUpdate updateTask updatedTask st)) = loading_D st \<and>
      error_D (snd (handleTaskUpdate updateTask updatedTask st)) = error_D st) \<and>
   (id_T updatedTask = Some i \<and> updateTask i updatedTask = Rejected \<longrightarrow>
      snd (handleTaskUpdate updateTask updatedTask st) = st)"
proof -
  have undefined_id: "id_T updatedTask = None \<longrightarrow>
      snd (handleTaskUpdate updateTask updatedTask st) = st \<and>
      filter isUpdateTask (fst (handleTaskUpdate updateTask updatedTask st)) = []"
    by (simp add: handleTaskUpdate_no_id)
  have call: "id_T updatedTask = Some i \<longrightarrow>
      filter isUpdateTask (fst (handleTaskUpdate updateTask updatedTask st)) =
        [UpdateTask i updatedTask]"
    by (simp add: handleTaskUpdate_call)
  have resolved: "id_T updatedTask = Some i \<and> updateTask i updatedTask = Resolved \<longrightarrow>
      length (tasks_D (snd (handleTaskUpdate updateTask updatedTask st))) = length (tasks_D st) \<and>
      (\<forall>k < length (tasks_D st).
         tasks_D (snd (handleTaskUpdate updateTask updatedTask st)) ! k =
           (if id_T (tasks_D st ! k) = Some i then updatedTask else tasks_D st ! k)) \<and>
      project_D (snd (handleTaskUpdate updateTask updatedTask st)) = project_D st \<and>
      loading_D (snd (handleTaskUpdate updateTask updatedTask st)) = loading_D st \<and>
      error_D (snd (handleTaskUpdate updateTask updatedTask st)) = error_D st"
    by (simp add: handleTaskUpdate_resolved)
  have rejected: "id_T updatedTask = Some i \<and> updateTask i updatedTask = Rejected \<longrightarrow>
      snd (handleTaskUpdate updateTask updatedTask st) = st"
    by (simp add: handleTaskUpdate_rejected)
  from undefined_id call resolved rejected show ?thesis by blast
qed

theorem handleTaskUpdate_frame_witness:
  "id_T (taskNamed 2 ''Buy primer'') = Some 2 \<and>
   tasks_D
     (snd (handleTaskUpdate (\<lambda>i task. Resolved) (taskNamed 2 ''Buy primer'')
        (loadedDetails emptyFormData [taskNamed 1 ''Measure'', taskNamed 2 ''Buy paint'']))) =
     [taskNamed 1 ''Measure'', taskNamed 2 ''Buy primer'']"
proof -
  let ?u = "taskNamed 2 ''Buy primer''"
  let ?st = "loadedDetails emptyFormData [taskNamed 1 ''Measure'', taskNamed 2 ''Buy paint'']"
  let ?st' = "snd (handleTaskUpdate (\<lambda>i task. Resolved) ?u ?st)"
  have hyp: "id_T ?u = Some 2" by (simp add: taskNamed_def)
  have old: "tasks_D ?st = [taskNamed 1 ''Measure'', taskNamed 2 ''Buy paint'']"
    by (simp add: loadedDetails_def)
  have ids: "id_T (taskNamed 1 ''Measure'') \<noteq> Some 2" "id_T (taskNamed 2 ''Buy paint'') = Some 2"
    by (simp_all add: taskNamed_def)
  from handleTaskUpdate_frame [of ?u "\<lambda>i task. Resolved" ?st 2] hyp old
  have len: "length (tasks_D ?st') = 2"
    and nth: "\<forall>k < 2. tasks_D ?st' ! k =
           (if id_T ([taskNamed 1 ''Measure'', taskNamed 2 ''Buy paint''] ! k) = Some 2
            then ?u else [taskNamed 1 ''Measure'', taskNamed 2 ''Buy paint''] ! k)"
    by simp_all
  from nth ids have "tasks_D ?st' ! 0 = taskNamed 1 ''Measure''" "tasks_D ?st' ! 1 = ?u"
    by simp_all
  with len have "tasks_D ?st' = [taskNamed 1 ''Measure'', ?u]"
    by (simp add: list_eq_iff_nth_eq less_Suc_eq numeral_2_eq_2)
  with hyp show ?thesis by simp
qed

text \<open>
  C7 as stated fails when \<^verbatim>\<open>updateTask\<close> rejects: the task with the id of the updated
  task is not replaced.
\<close>

theorem handleTaskUpdate_rejected_counterexample:
  "id_T (taskNamed 2 ''Buy primer'') = Some 2 \<and>
   tasks_D
     (snd (handleTaskUpdate (\<lambda>i task. Rejected) (taskNamed 2 ''Buy primer'')
        (loadedDetails emptyFormData [taskNamed 1 ''Measure'', taskNamed 2 ''Buy paint'']))) =
     [taskNamed 1 ''Measure'', taskNamed 2 ''Buy paint''] \<and>
   taskNamed 2 ''Buy paint'' \<noteq> taskNamed 2 ''Buy primer''"
  by (simp add: handleTaskUpdate_def loadedDetails_def taskNamed_def js_def)

section \<open>Properties of the new-task field\<close>

lemma handleKeyDown_idle:
  "key \<noteq> js ''Enter'' \<or> trim taskName = [] \<Longrightarrow>
   handleKeyDown onTaskCreate key taskName = ([], taskName)"
  by (auto simp: handleKeyDown_def)

lemma handleKeyDown_resolved:
  "key = js ''Enter'' \<Longrightarrow> trim taskName \<noteq> [] \<Longrightarrow>
   onTaskCreate (trim taskName) = Resolved \<Longrightarrow>
   handleKeyDown onTaskCreate key taskName =
     ([OnTaskCreate (trim taskName), ShowSuccessToast ''Task created successfully!''], [])"
  by (simp add: handleKeyDown_def)

lemma handleKeyDown_rejected:
  "key = js ''Enter'' \<Longrightarrow> trim taskName \<noteq> [] \<Longrightarrow>
   onTaskCreate (trim taskName) = Rejected \<Longrightarrow>
   handleKeyDown onTaskCreate key taskName =
     ([OnTaskCreate (trim taskName), ConsoleError ''Error creating task:'',
       ShowErrorToast ''Failed to create task.''], taskName)"
  by (simp add: handleKeyDown_def)

lemma handleKeyDown_invoked:
  "OnTaskCreate n \<in> set (fst (handleKeyDown onTaskCreate key taskName)) \<longleftrightarrow>
   key = js ''Enter'' \<and> trim taskName \<noteq> [] \<and> n = trim taskName"
  by (cases "onTaskCreate (trim taskName)") (auto simp: handleKeyDown_def)

text \<open>
  C4. \<^verbatim>\<open>onTaskCreate\<close> is invoked exactly when the key is Enter and the trimmed name
  is not empty, and its argument is the trimmed name. When the call succeeds, the field
  is cleared and the success toast is shown; when it fails, the error toast is shown and
  the field keeps its content. For any other key, and for a name that is empty or all
  white space, nothing is called, no toast is shown and the field keeps its content.
\<close>

theorem handleKeyDown_cases:
  "((\<exists>n. OnTaskCreate n \<in> set (fst (handleKeyDown onTaskCreate key taskName))) \<longleftrightarrow>
      key = js ''Enter'' \<and> trim taskName \<noteq> []) \<and>
   (\<forall>n. OnTaskCreate n \<in> set (fst (handleKeyDown onTaskCreate key taskName)) \<longrightarrow>
      n = trim taskName) \<and>
   (key = js ''Enter'' \<and> trim taskName \<noteq> [] \<and> onTaskCreate (trim taskName) = Resolved \<longrightarrow>
      handleKeyDown onTaskCreate key taskName =
        ([OnTaskCreate (trim taskName), ShowSuccessToast ''Task created successfully!''], [])) \<and>
   (key = js ''Enter'' \<and> trim taskName \<noteq> [] \<and> onTaskCreate (trim taskName) = Rejected \<longrightarrow>
      handleKeyDown onTaskCreate key taskName =
        ([OnTaskCreate (trim taskName), ConsoleError ''Error creating task:'',
          ShowErrorToast ''Failed to create task.''], taskName)) \<and>
   (key \<noteq> js ''Enter'' \<or> (\<forall>c \<in> set taskName. isWhiteSpace c) \<longrightarrow>
      handleKeyDown onTaskCreate key taskName = ([], taskName))"
proof -
  have invoked: "(\<exists>n. OnTaskCreate n \<in> set (fst (handleKeyDown onTaskCreate key taskName))) \<longleftrightarrow>
      key = js ''Enter'' \<and> trim taskName \<noteq> []"
    by (simp add: handleKeyDown_invoked)
  have argument: "\<forall>n. OnTaskCreate n \<in> set (fst (handleKeyDown onTaskCreate key taskName)) \<longrightarrow>
      n = trim taskName"
    by (simp add: handleKeyDown_invoked)
  have idle: "key \<noteq> js ''Enter'' \<or> (\<forall>c \<in> set taskName. isWhiteSpace c) \<longrightarrow>
      handleKeyDown onTaskCreate key taskName = ([], taskName)"
    using handleKeyDown_idle [of key taskName onTaskCreate]
    by (simp add: trim_empty_iff)
  from invoked argument idle
    handleKeyDown_resolved [of key taskName onTaskCreate]
    handleKeyDown_rejected [of key taskName onTaskCreate]
  show ?thesis by blast
qed

theorem handleKeyDown_cases_witness:
  "trim ([0xA0, 0x20] @ js ''Buy paint'' @ [0x3000]) = js ''Buy paint'' \<and>
   handleKeyDown (\<lambda>n. Resolved) (js ''Enter'') ([0xA0, 0x20] @ js ''Buy paint'' @ [0x3000]) =
     ([OnTaskCreate (js ''Buy paint''), ShowSuccessToast ''Task created successfully!''], []) \<and>
   handleKeyDown (\<lambda>n. Rejected) (js ''Enter'') ([0xA0, 0x20] @ js ''Buy paint'' @ [0x3000]) =
     ([OnTaskCreate (js ''Buy paint''), ConsoleError ''Error creating task:'',
       ShowErrorToast ''Failed to create task.''], [0xA0, 0x20] @ js ''Buy paint'' @ [0x3000]) \<and>
   handleKeyDown (\<lambda>n. Resolved) (js ''a'') ([0xA0, 0x20] @ js ''Buy paint'' @ [0x3000]) =
     ([], [0xA0, 0x20] @ js ''Buy paint'' @ [0x3000]) \<and>
   handleKeyDown (\<lambda>n. Resolved) (js ''Enter'') [0xA0, 0x2003] = ([], [0xA0, 0x2003])"
proof -
  let ?name = "[0xA0, 0x20] @ js ''Buy paint'' @ [0x3000]"
  have t: "trim ?name = js ''Buy paint''" by (simp add: string_eval)
  have ne: "trim ?name \<noteq> []" unfolding t by (simp add: js_def)
  have k: "js ''a'' \<noteq> js ''Enter''" by (simp add: js_def)
  have blank: "\<forall>c \<in> set [0xA0, 0x2003]. isWhiteSpace c" by (simp add: isWhiteSpace_def)
  note resolved =
    handleKeyDown_cases [of "\<lambda>n. Resolved" "js ''Enter''" ?name,
      THEN conjunct2, THEN conjunct2, THEN conjunct1, rule_format]
  note rejected =
    handleKeyDown_cases [of "\<lambda>n. Rejected" "js ''Enter''" ?name,
      THEN conjunct2, THEN conjunct2, THEN conjunct2, THEN conjunct1, rule_format]
  note idle =
    handleKeyDown_cases [of "\<lambda>n. Resolved" "js ''a''" ?name,
      THEN conjunct2, THEN conjunct2, THEN conjunct2, THEN conjunct2, rule_format]
  note idle_blank =
    handleKeyDown_cases [of "\<lambda>n. Resolved" "js ''Enter''" "[0xA0, 0x2003]",
      THEN conjunct2, THEN conjunct2, THEN conjunct2, THEN conjunct2, rule_format]
  have r1: "handleKeyDown (\<lambda>n. Resolved) (js ''Enter'') ?name =
     ([OnTaskCreate (js ''Buy paint''), ShowSuccessToast ''Task created successfully!''], [])"
    using resolved ne unfolding t by blast
  have r2: "handleKeyDown (\<lambda>n. Rejected) (js ''Enter'') ?name =
     ([OnTaskCreate (js ''Buy paint''), ConsoleError ''Error creating task:'',
       ShowErrorToast ''Failed to create task.''], ?name)"
    using rejected ne unfolding t by blast
  have r3: "handleKeyDown (\<lambda>n. Resolved) (js ''a'') ?name = ([], ?name)"
    using idle k by blast
  have r4: "handleKeyDown (\<lambda>n. Resolved) (js ''Enter'') [0xA0, 0x2003] = ([], [0xA0, 0x2003])"
    using idle_blank blank by blast
  from t r1 r2 r3 r4 show ?thesis by (intro conjI)
qed

section \<open>Properties of the project dialog\<close>

lemma modalRun_append:
  "modalRun (pre @ post) formData =
     modalRun pre formData @ modalRun post (formAfter pre formData)"
  by (induction pre arbitrary: formData) simp_all

lemma modalStep_saves:
  "OnSave p \<in> set (fst (modalStep e formData)) \<Longrightarrow> e = Submit \<and> p = formData"
  by (cases e) (auto simp: handleSubmit_def)

lemma modalRun_saves:
  "OnSave p \<in> set (modalRun events formData) \<Longrightarrow>
   \<exists>pre post. events = pre @ Submit # post \<and> p = formAfter pre formData"
proof (induction events arbitrary: formData)
  case Nil
  then show ?case by simp
next
  case (Cons e es)
  from Cons.prems have "OnSave p \<in> set (fst (modalStep e formData)) \<or>
      OnSave p \<in> set (modalRun es (snd (modalStep e formData)))"
    by auto
  then show ?case
  proof
    assume "OnSave p \<in> set (fst (modalStep e formData))"
    then have "e = Submit" "p = formData" by (auto dest: modalStep_saves)
    then have "e # es = [] @ Submit # es \<and> p = formAfter [] formData" by simp
    then show ?thesis by blast
  next
    assume "OnSave p \<in> set (modalRun es (snd (modalStep e formData)))"
    from Cons.IH [OF this] obtain pre post
      where "es = pre @ Submit # post" "p = formAfter pre (snd (modalStep e formData))"
      by blast
    then have "e # es = (e # pre) @ Submit # post \<and> p = formAfter (e # pre) formData"
      by simp
    then show ?thesis by blast
  qed
qed

text \<open>
  C8, as the code has it. \<^verbatim>\<open>handleSubmit\<close> passes the form data to \<^verbatim>\<open>onSave\<close> as
  they are, whatever the name. Every project that the dialog passes to \<^verbatim>\<open>onSave\<close> is
  the form data at the time of a submit event: the initial data with the changes of the
  controls and the replacements of the project made before it. The projects passed have
  names that are not empty if the form data have such a name at every submit event.
\<close>

theorem modal_saves_form_data:
  "handleSubmit formData = [OnSave formData, OnClose] \<and>
   modalRun (pre @ [Submit]) formData =
     modalRun pre formData @ [OnSave (formAfter pre formData), OnClose] \<and>
   (\<forall>p. OnSave p \<in> set (modalRun events formData) \<longrightarrow>
      (\<exists>before after. events = before @ Submit # after \<and> p = formAfter before formData)) \<and>
   ((\<forall>before after. events = before @ Submit # after \<longrightarrow>
       name_P (formAfter before formData) \<noteq> []) \<longrightarrow>
    (\<forall>p. OnSave p \<in> set (modalRun events formData) \<longrightarrow> name_P p \<noteq> []))"
proof -
  have submit: "handleSubmit formData = [OnSave formData, OnClose]"
    by (simp add: handleSubmit_def)
  have last: "modalRun (pre @ [Submit]) formData =
     modalRun pre formData @ [OnSave (formAfter pre formData), OnClose]"
    by (simp add: modalRun_append handleSubmit_def)
  have saves: "\<forall>p. OnSave p \<in> set (modalRun events formData) \<longrightarrow>
      (\<exists>before after. events = before @ Submit # after \<and> p = formAfter before formData)"
    using modalRun_saves by blast
  have named: "(\<forall>before after. events = before @ Submit # after \<longrightarrow>
       name_P (formAfter before formData) \<noteq> []) \<longrightarrow>
    (\<forall>p. OnSave p \<in> set (modalRun events formData) \<longrightarrow> name_P p \<noteq> [])"
  proof (intro impI allI)
    fix p
    assume valid: "\<forall>before after. events = before @ Submit # after \<longrightarrow>
       name_P (formAfter before formData) \<noteq> []"
    assume "OnSave p \<in> set (modalRun events formData)"
    from modalRun_saves [OF this] obtain before after
      where "events = before @ Submit # after" "p = formAfter before formData"
      by blast
    with valid show "name_P p \<noteq> []" by blast
  qed
  from submit last saves named show ?thesis by (intro conjI)
qed

theorem modal_saves_form_data_witness:
  "OnSave (emptyFormData\<lparr>name_P := js ''Garden''\<rparr>) \<in>
     set (modalRun [Change (NameInput (js ''Garden'')), Submit] emptyFormData) \<and>
   modalRun [Change (NameInput (js ''Garden'')), Submit] emptyFormData =
     [OnSave (emptyFormData\<lparr>name_P := js ''Garden''\<rparr>), OnClose] \<and>
   (\<exists>before after. [Change (NameInput (js ''Garden'')), Submit] = before @ Submit # after \<and>
      emptyFormData\<lparr>name_P := js ''Garden''\<rparr> = formAfter before emptyFormData)"
proof -
  let ?events = "[Change (NameInput (js ''Garden'')), Submit]"
  let ?saved = "emptyFormData\<lparr>name_P := js ''Garden''\<rparr>"
  note th = modal_saves_form_data [of emptyFormData "[Change (NameInput (js ''Garden''))]" ?events]
  have "modalRun ([Change (NameInput (js ''Garden''))] @ [Submit]) emptyFormData =
     modalRun [Change (NameInput (js ''Garden''))] emptyFormData @
     [OnSave (formAfter [Change (NameInput (js ''Garden''))] emptyFormData), OnClose]"
    by (rule th [THEN conjunct2, THEN conjunct1])
  then have run: "modalRun ?events emptyFormData = [OnSave ?saved, OnClose]" by simp
  then have mem: "OnSave ?saved \<in> set (modalRun ?events emptyFormData)" by simp
  from th [THEN conjunct2, THEN conjunct2, THEN conjunct1, rule_format, OF mem]
  have "\<exists>before after. ?events = before @ Submit # after \<and>
      ?saved = formAfter before emptyFormData" .
  with mem run show ?thesis by (intro conjI)
qed

text \<open>
  C8 as stated fails for a submit event that reaches the handler while the name is
  empty: the form data are passed to \<^verbatim>\<open>onSave\<close> with the empty name. The attribute
  \<^verbatim>\<open>required\<close> of the name input asks the browser to hold such a submission back; the
  component itself has no check.
\<close>

theorem modal_saves_empty_name_counterexample:
  "modalRun [Submit] emptyFormData = [OnSave emptyFormData, OnClose] \<and>
   name_P emptyFormData = []"
  by (simp add: handleSubmit_def emptyFormData_def)

end
